theory Spec2Isabelle
  imports Main
begin

section \<open>s3rpc: request/response calls over an object store and a notification queue\<close>

text \<open>
  A shallow embedding of \<^verbatim>\<open>common.go\<close>, \<^verbatim>\<open>server.go\<close> and \<^verbatim>\<open>client.go\<close> of
  package \<^verbatim>\<open>s3rpc\<close>. The package is glue around three outside parties: the queue
  service (SQS), the object store (S3) and the local file system. Every call the
  package makes to one of them is an \<^emph>\<open>event\<close>; the state that is threaded through the
  model is the list of events so far (the trace, oldest first). What the outside
  answers is not fixed by the package, so it is a parameter: an \<^emph>\<open>environment\<close> of
  oracles that map the trace (whose last event is the call being answered) to the
  call's result. An oracle may depend on the whole history, so any deterministic
  behaviour of the services is an instance, and a theorem for all environments
  covers every behaviour.

  Not traced: the logging callback \<^verbatim>\<open>infof\<close> and the \<^verbatim>\<open>Close\<close> of file handles
  and response bodies (their results are never read).
\<close>

subsection \<open>Go library functions used by the package\<close>

text \<open>\<^verbatim>\<open>strings.HasPrefix\<close> and \<^verbatim>\<open>strings.Contains\<close> on byte strings.\<close>

fun strings_HasPrefix :: "string \<Rightarrow> string \<Rightarrow> bool" where
  "strings_HasPrefix s [] = True"
| "strings_HasPrefix [] (p # ps) = False"
| "strings_HasPrefix (c # s) (p # ps) = (c = p \<and> strings_HasPrefix s ps)"

fun strings_Contains :: "string \<Rightarrow> string \<Rightarrow> bool" where
  "strings_Contains [] substr = (substr = [])"
| "strings_Contains (c # s) substr =
     (strings_HasPrefix (c # s) substr \<or> strings_Contains s substr)"

text \<open>
  \<^verbatim>\<open>strings.Split(s, sep)\<close> for a separator of one byte (the package only splits
  at \<^verbatim>\<open>"/"\<close>): the pieces between the separators, one more than there are
  separators; \<^verbatim>\<open>Split("", "/")\<close> is \<^verbatim>\<open>[""]\<close>.
\<close>

fun strings_Split :: "string \<Rightarrow> char \<Rightarrow> string list" where
  "strings_Split [] sep = [[]]"
| "strings_Split (c # s) sep =
     (let r = strings_Split s sep
      in if c = sep then [] # r else (c # hd r) # tl r)"

text \<open>
  \<^verbatim>\<open>path.Base\<close>: the last element of a slash-separated path. Trailing slashes are
  removed first; the empty path gives \<^verbatim>\<open>"."\<close>, a path of slashes only gives
  \<^verbatim>\<open>"/"\<close>. On a Unix system \<^verbatim>\<open>filepath.Base\<close> is the same function.
\<close>

definition path_Base :: "string \<Rightarrow> string" where
  "path_Base p =
     (if p = [] then ''.''
      else let p1 = rev (dropWhile (\<lambda>c. c = CHR ''/'') (rev p));
               p2 = rev (takeWhile (\<lambda>c. c \<noteq> CHR ''/'') (rev p1))
           in if p2 = [] then ''/'' else p2)"

definition filepath_Base :: "string \<Rightarrow> string" where
  "filepath_Base p = path_Base p"

subsection \<open>Data\<close>

text \<open>\<^verbatim>\<open>map[string]string\<close>; the nil map reads as the empty one.\<close>

type_synonym metadata = "string \<rightharpoonup> string"

text \<open>\<^verbatim>\<open>time.Duration\<close>, in nanoseconds.\<close>

type_synonym Duration = int

definition Second :: Duration where
  "Second = 1000000000"

definition Minute :: Duration where
  "Minute = 60 * Second"

record Input =
  Filename :: string
  Metadata :: metadata

record Output =
  Filename :: string
  Metadata :: metadata

record message =
  Bucket :: string
  Key :: string
  ReceiptHandle :: string

text \<open>
  Errors as values. \<open>ExtError\<close> is an error that comes from outside the package (the
  SDK, the operating system, a handler); the other constructors are the errors the
  package builds itself, one per \<^verbatim>\<open>fmt.Errorf\<close> or \<^verbatim>\<open>errors.New\<close>, holding the
  arguments of the format.
\<close>

datatype error =
    ExtError string
  | ErrNew string                 \<comment> \<open>\<^verbatim>\<open>errors.New(msg)\<close>, \<^verbatim>\<open>fmt.Errorf(msg)\<close>\<close>
  | ErrBucket string string       \<comment> \<open>\<^verbatim>\<open>"expected bucket %q, got %q"\<close>\<close>
  | ErrRecords nat                \<comment> \<open>\<^verbatim>\<open>"expected only one record, got %d"\<close>\<close>
  | ErrTempfile error             \<comment> \<open>\<^verbatim>\<open>"tempfile: %w"\<close>\<close>
  | ErrHandle error               \<comment> \<open>\<^verbatim>\<open>"handle: %w"\<close>\<close>
  | ErrUpload error               \<comment> \<open>\<^verbatim>\<open>"upload: %v"\<close>\<close>
  | ErrApply error                \<comment> \<open>\<^verbatim>\<open>"apply: %v"\<close>\<close>

text \<open>
  A message as the queue service hands it over: the result of \<^verbatim>\<open>json.Unmarshal\<close>
  of its body into \<^verbatim>\<open>messageBody\<close> (an error, or the records, of each the bucket
  name and the object key), and the receipt handle.
\<close>

datatype sqs_Message =
  SqsMessage (Records: "error + (string \<times> string) list") (Handle: string)

text \<open>The calls to the outside.\<close>

datatype event =
    EvReceiveMessage string nat nat nat   \<comment> \<open>queue, maximum, visibility, wait\<close>
  | EvDeleteMessage string string         \<comment> \<open>queue, receipt handle\<close>
  | EvChangeMessageVisibility string string nat  \<comment> \<open>queue, receipt handle, seconds\<close>
  | EvGetObject string string             \<comment> \<open>bucket, key\<close>
  | EvCopy string                         \<comment> \<open>\<^verbatim>\<open>io.Copy\<close> into the named file\<close>
  | EvDeleteObject string string          \<comment> \<open>bucket, key\<close>
  | EvOpen string                         \<comment> \<open>\<^verbatim>\<open>os.Open\<close>\<close>
  | EvUpload string string string metadata  \<comment> \<open>bucket, key, file, metadata\<close>
  | EvCreateTemp string string            \<comment> \<open>directory, pattern\<close>
  | EvRemove string
  | EvRemoveAll string
  | EvMkdirTemp string string
  | EvHandle string Input                 \<comment> \<open>operation, input\<close>
  | EvNewUUID
  | EvSelect                              \<comment> \<open>the \<^verbatim>\<open>select\<close> at the top of a loop\<close>
  | EvSleep Duration
  | EvCloseQuit                           \<comment> \<open>\<^verbatim>\<open>close(s.quit)\<close>\<close>

type_synonym trace = "event list"

datatype select_case = CaseQuit | CaseDone | CaseDefault

record env =
  sqs_ReceiveMessage :: "trace \<Rightarrow> error + sqs_Message list"
  sqs_DeleteMessage :: "trace \<Rightarrow> error option"
  sqs_ChangeMessageVisibility :: "trace \<Rightarrow> error option"
  s3_GetObject :: "trace \<Rightarrow> error + metadata"
  io_Copy :: "trace \<Rightarrow> error option"
  s3_DeleteObject :: "trace \<Rightarrow> error option"
  os_Open :: "trace \<Rightarrow> error option"
  s3_Upload :: "trace \<Rightarrow> error option"
  os_CreateTemp :: "trace \<Rightarrow> error + string"
  os_RemoveAll :: "trace \<Rightarrow> error option"
  os_MkdirTemp :: "trace \<Rightarrow> error + string"
  uuid_New :: "trace \<Rightarrow> string"
  ctx_Done :: "trace \<Rightarrow> bool"           \<comment> \<open>is \<^verbatim>\<open>ctx.Done()\<close> ready at this select\<close>
  server_select :: "trace \<Rightarrow> select_case"  \<comment> \<open>the case the server's select takes\<close>

text \<open>A handler is user code: its result is an oracle too.\<close>

type_synonym handler = "trace \<Rightarrow> Input \<Rightarrow> error + Output"

type_synonym Handlers = "string \<rightharpoonup> handler"

record AWSConfig =
  Region :: string
  Bucket :: string
  AccessKeyID :: string
  SecretAccessKey :: string

record ClientOptions = AWSConfig +
  Queue :: string
  Timeout :: Duration

record ServerOptions = AWSConfig +
  Handlers :: Handlers
  Queue :: string
  PollInterval :: Duration

text \<open>
  \<^verbatim>\<open>common\<close>. The two SDK clients are the oracles above; what they were built
  from (region and credentials) is kept. \<open>closeOnce\<close> is whether the
  \<^verbatim>\<open>sync.Once\<close> has run.
\<close>

record common =
  tempDir :: string
  bucket :: string
  queue :: string
  awsRegion :: string
  awsAccessKeyID :: string
  awsSecretAccessKey :: string
  closeOnce :: bool

record Client = common +
  timeout :: Duration

text \<open>\<open>quit\<close> is whether the channel \<^verbatim>\<open>s.quit\<close> has been closed.\<close>

record Server = common +
  handlers :: Handlers
  pollIntervall :: Duration
  quit :: bool

definition toServer :: string where
  "toServer = ''to_server''"

definition toClient :: string where
  "toClient = ''to_client''"

definition defaultRegion :: string where
  "defaultRegion = ''eu-north-1''"

definition visibilitySeconds :: nat where
  "visibilitySeconds = 7"

subsection \<open>common.go\<close>

text \<open>The loop of \<^verbatim>\<open>Receive\<close> over the raw messages.\<close>

fun Receive_messages :: "sqs_Message list \<Rightarrow> message list \<Rightarrow> error + message list" where
  "Receive_messages [] messages = Inr messages"
| "Receive_messages (m # ms) messages =
     (case Records m of
        Inl err \<Rightarrow> Inl err
      | Inr records \<Rightarrow>
          if length records = 0 then Receive_messages ms messages
          else if length records > 1 then Inl (ErrRecords (length records))
          else Receive_messages ms
                 (messages @ [\<lparr>message.Bucket = fst (records ! 0), Key = snd (records ! 0),
                                ReceiptHandle = Handle m\<rparr>]))"

definition Receive :: "env \<Rightarrow> 'a common_scheme \<Rightarrow> trace \<Rightarrow> (error + message list) \<times> trace" where
  "Receive env c t =
     (let t1 = t @ [EvReceiveMessage (queue c) 5 visibilitySeconds 20]
      in case sqs_ReceiveMessage env t1 of
           Inl err \<Rightarrow> (Inl err, t1)
         | Inr result \<Rightarrow> (Receive_messages result [], t1))"

definition deleteMessage :: "env \<Rightarrow> 'a common_scheme \<Rightarrow> string \<Rightarrow> trace \<Rightarrow> error option \<times> trace" where
  "deleteMessage env c receiptHandle t =
     (let t1 = t @ [EvDeleteMessage (queue c) receiptHandle]
      in (sqs_DeleteMessage env t1, t1))"

definition deleteObject :: "env \<Rightarrow> 'a common_scheme \<Rightarrow> string \<Rightarrow> trace \<Rightarrow> error option \<times> trace" where
  "deleteObject env c key t =
     (let t1 = t @ [EvDeleteObject (bucket c) key]
      in (s3_DeleteObject env t1, t1))"

definition getObject :: "env \<Rightarrow> 'a common_scheme \<Rightarrow> string \<Rightarrow> string \<Rightarrow> trace \<Rightarrow> (error + metadata) \<times> trace" where
  "getObject env c f key t =
     (let t1 = t @ [EvGetObject (bucket c) key]
      in case s3_GetObject env t1 of
           Inl err \<Rightarrow> (Inl err, t1)
         | Inr md \<Rightarrow>
             (let t2 = t1 @ [EvCopy f]
              in case io_Copy env t2 of
                   Some err \<Rightarrow> (Inl err, t2)
                 | None \<Rightarrow> (Inr md, t2)))"

definition releaseMessage :: "env \<Rightarrow> 'a common_scheme \<Rightarrow> string \<Rightarrow> trace \<Rightarrow> error option \<times> trace" where
  "releaseMessage env c receiptHandle t =
     (let t1 = t @ [EvChangeMessageVisibility (queue c) receiptHandle 0]
      in (sqs_ChangeMessageVisibility env t1, t1))"

definition upload :: "env \<Rightarrow> 'a common_scheme \<Rightarrow> string \<Rightarrow> string \<Rightarrow> metadata \<Rightarrow> trace \<Rightarrow> error option \<times> trace" where
  "upload env c filename key metaData t =
     (let t1 = t @ [EvOpen filename]
      in case os_Open env t1 of
           Some err \<Rightarrow> (Some err, t1)
         | None \<Rightarrow>
             (let t2 = t1 @ [EvUpload (bucket c) key filename metaData]
              in case s3_Upload env t2 of
                   Some err \<Rightarrow> (Some (ErrUpload err), t2)
                 | None \<Rightarrow> (None, t2)))"

subsection \<open>client.go\<close>

text \<open>
  Control of a \<^verbatim>\<open>for _, m := range ms\<close> body: go on with the next message, or
  leave the enclosing function with a value.
\<close>

datatype 'a flow = Next | Return 'a

definition ClientOptions_init :: "ClientOptions \<Rightarrow> error option \<times> ClientOptions" where
  "ClientOptions_init opts =
     (let opts1 = (if Region opts = [] then opts\<lparr>Region := defaultRegion\<rparr> else opts)
      in if AccessKeyID opts1 = [] then (Some (ErrNew ''access key id is required''), opts1)
         else if SecretAccessKey opts1 = [] then (Some (ErrNew ''secret access key is required''), opts1)
         else if ClientOptions.Queue opts1 = [] then (Some (ErrNew ''queue is required''), opts1)
         else (None, opts1))"

definition NewClient :: "env \<Rightarrow> ClientOptions \<Rightarrow> trace \<Rightarrow> (error + Client) \<times> trace" where
  "NewClient env opts t =
     (case ClientOptions_init opts of
        (Some err, opts1) \<Rightarrow> (Inl err, t)
      | (None, opts1) \<Rightarrow>
          (let opts2 = (if Timeout opts1 = 0 then opts1\<lparr>Timeout := 5 * Minute\<rparr> else opts1);
               t1 = t @ [EvMkdirTemp [] ''s3rpc_client'']
           in case os_MkdirTemp env t1 of
                Inl err \<Rightarrow> (Inl err, t1)
              | Inr dir \<Rightarrow>
                  (Inr \<lparr>tempDir = dir, bucket = Bucket opts2, queue = ClientOptions.Queue opts2,
                        awsRegion = Region opts2, awsAccessKeyID = AccessKeyID opts2,
                        awsSecretAccessKey = SecretAccessKey opts2, closeOnce = False,
                        timeout = Timeout opts2\<rparr>, t1)))"

text \<open>
  The request key, \<^verbatim>\<open>fmt.Sprintf("%s/%s/%s_%s", toServer, op, id, filepath.Base(filename))\<close>.
  The source's \<^verbatim>\<open>id\<close> is written \<open>id'\<close> throughout (\<open>id\<close> is HOL's identity).
\<close>

definition requestKey :: "string \<Rightarrow> string \<Rightarrow> string \<Rightarrow> string" where
  "requestKey op id' filename =
     toServer @ ''/'' @ op @ ''/'' @ id' @ ''_'' @ filepath_Base filename"

text \<open>
  The closure that downloads the matching response. It writes the captured variable
  \<^verbatim>\<open>output\<close>, so the variable is passed in and returned.
\<close>

definition client_download ::
  "env \<Rightarrow> Client \<Rightarrow> string \<Rightarrow> message \<Rightarrow> Output \<Rightarrow> trace \<Rightarrow> (error option \<times> Output) \<times> trace" where
  "client_download env c key m output t =
     (let t1 = t @ [EvCreateTemp (tempDir c) (''*_'' @ path_Base (Key m))]
      in case os_CreateTemp env t1 of
           Inl err \<Rightarrow> ((Some (ErrTempfile err), output), t1)
         | Inr fname \<Rightarrow>
             (let output1 = output\<lparr>Filename := fname\<rparr>
              in case getObject env c fname (Key m) t1 of
                   (Inl err, t2) \<Rightarrow> ((Some err, output1), t2)
                 | (Inr metaData, t2) \<Rightarrow>
                     (let output2 = output1\<lparr>Metadata := metaData\<rparr>;
                          t3 = snd (deleteObject env c (Key m) t2);
                          t4 = snd (deleteObject env c key t3)
                      in ((None, output2), t4))))"

text \<open>The body of the loop over the received messages.\<close>

definition client_message ::
  "env \<Rightarrow> Client \<Rightarrow> string \<Rightarrow> string \<Rightarrow> message \<Rightarrow> Output \<Rightarrow> trace
     \<Rightarrow> (error option \<times> Output) flow \<times> trace" where
  "client_message env c id' key m output t =
     (if message.Bucket m \<noteq> bucket c
      then (Return (Some (ErrBucket (bucket c) (message.Bucket m)), output), t)
      else if \<not> strings_Contains (Key m) id'
      then (case releaseMessage env c (ReceiptHandle m) t of
              (Some err, t1) \<Rightarrow> (Return (Some err, output), t1)
            | (None, t1) \<Rightarrow> (Next, t1))
      else (case deleteMessage env c (ReceiptHandle m) t of
              (Some err, t1) \<Rightarrow> (Return (Some err, output), t1)
            | (None, t1) \<Rightarrow>
                (let (r, t2) = client_download env c key m output t1
                 in (Return r, t2))))"

fun client_messages ::
  "env \<Rightarrow> Client \<Rightarrow> string \<Rightarrow> string \<Rightarrow> message list \<Rightarrow> Output \<Rightarrow> trace
     \<Rightarrow> (error option \<times> Output) flow \<times> trace" where
  "client_messages env c id' key [] output t = (Next, t)"
| "client_messages env c id' key (m # ms) output t =
     (case client_message env c id' key m output t of
        (Return r, t1) \<Rightarrow> (Return r, t1)
      | (Next, t1) \<Rightarrow> client_messages env c id' key ms output t1)"

text \<open>
  The goroutine's \<^verbatim>\<open>for { select { ... } }\<close>. Nothing in the package bounds the
  number of rounds, so the model takes fuel, one unit per round: \<open>None\<close> is "still
  polling when the fuel ran out".
\<close>

fun client_loop ::
  "nat \<Rightarrow> env \<Rightarrow> Client \<Rightarrow> string \<Rightarrow> string \<Rightarrow> Output \<Rightarrow> trace
     \<Rightarrow> ((error option \<times> Output) \<times> trace) option" where
  "client_loop 0 env c id' key output t = None"
| "client_loop (Suc n) env c id' key output t =
     (let t0 = t @ [EvSelect]
      in if ctx_Done env t0 then Some ((None, output), t0)
         else (case Receive env c t0 of
                 (Inl err, t1) \<Rightarrow> Some ((Some err, output), t1)
               | (Inr ms, t1) \<Rightarrow>
                   (case client_messages env c id' key ms output t1 of
                      (Return r, t2) \<Rightarrow> Some (r, t2)
                    | (Next, t2) \<Rightarrow> client_loop n env c id' key output t2)))"

definition ExecuteFilename ::
  "nat \<Rightarrow> env \<Rightarrow> Client \<Rightarrow> string \<Rightarrow> string \<Rightarrow> trace \<Rightarrow> ((error + Output) \<times> trace) option" where
  "ExecuteFilename n env c op filename t =
     (let t0 = t @ [EvNewUUID];
          id' = uuid_New env t0;
          key = requestKey op id' filename
      in case upload env c filename key Map.empty t0 of
           (Some err, t1) \<Rightarrow> Some (Inl (ErrApply err), t1)
         | (None, t1) \<Rightarrow>
             (case client_loop n env c id' key \<lparr>Filename = [], Metadata = Map.empty\<rparr> t1 of
                None \<Rightarrow> None
              | Some ((Some err, output), t2) \<Rightarrow> Some (Inl (ErrApply err), t2)
              | Some ((None, output), t2) \<Rightarrow> Some (Inr output, t2)))"

definition Client_Close :: "env \<Rightarrow> Client \<Rightarrow> trace \<Rightarrow> error option \<times> Client \<times> trace" where
  "Client_Close env c t =
     (let t1 = t @ [EvRemoveAll (tempDir c)]
      in (os_RemoveAll env t1, c, t1))"

subsection \<open>server.go\<close>

definition ServerOptions_init :: "ServerOptions \<Rightarrow> error option \<times> ServerOptions" where
  "ServerOptions_init opts =
     (let opts1 = (if Region opts = [] then opts\<lparr>Region := defaultRegion\<rparr> else opts)
      in if AccessKeyID opts1 = [] then (Some (ErrNew ''access key id is required''), opts1)
         else if SecretAccessKey opts1 = [] then (Some (ErrNew ''secret access key is required''), opts1)
         else if ServerOptions.Queue opts1 = [] then (Some (ErrNew ''queue is required''), opts1)
         else (None, opts1))"

definition NewServer :: "env \<Rightarrow> ServerOptions \<Rightarrow> trace \<Rightarrow> (error + Server) \<times> trace" where
  "NewServer env opts t =
     (case ServerOptions_init opts of
        (Some err, opts1) \<Rightarrow> (Inl err, t)
      | (None, opts1) \<Rightarrow>
          (let opts2 = (if PollInterval opts1 = 0 then opts1\<lparr>PollInterval := 10 * Second\<rparr> else opts1);
               t1 = t @ [EvMkdirTemp [] ''s3rpc_server'']
           in case os_MkdirTemp env t1 of
                Inl err \<Rightarrow> (Inl err, t1)
              | Inr dir \<Rightarrow>
                  (Inr \<lparr>tempDir = dir, bucket = Bucket opts2, queue = ServerOptions.Queue opts2,
                        awsRegion = Region opts2, awsAccessKeyID = AccessKeyID opts2,
                        awsSecretAccessKey = SecretAccessKey opts2, closeOnce = False,
                        handlers = Handlers opts2, pollIntervall = PollInterval opts2,
                        quit = False\<rparr>, t1)))"

text \<open>
  How a call of the package ends: it returns (nil or an error), or it panics.
\<close>

datatype panic = IndexOutOfRange nat nat | CloseOfClosedChannel

datatype outcome = Returned "error option" | Panicked panic

text \<open>
  \<^verbatim>\<open>s.closeOnce.Do(...)\<close>: the function runs on the first call only, and the
  \<^verbatim>\<open>Once\<close> counts as done also when the function panics; \<^verbatim>\<open>err\<close> is a fresh nil
  variable in every call. \<^verbatim>\<open>close\<close> of a channel that is closed already panics.
\<close>

definition Server_Close :: "env \<Rightarrow> Server \<Rightarrow> trace \<Rightarrow> outcome \<times> Server \<times> trace" where
  "Server_Close env s t =
     (if closeOnce s then (Returned None, s, t)
      else if quit s then (Panicked CloseOfClosedChannel, s\<lparr>closeOnce := True\<rparr>, t)
      else let t1 = t @ [EvCloseQuit];
               t2 = t1 @ [EvRemoveAll (tempDir s)]
           in (Returned (os_RemoveAll env t2), s\<lparr>closeOnce := True, quit := True\<rparr>, t2))"

text \<open>
  The closure run for a message that has a handler, after the message was deleted.
  The deferred \<^verbatim>\<open>os.Remove(f.Name())\<close> runs on every way out once the file exists.
\<close>

definition server_process ::
  "env \<Rightarrow> Server \<Rightarrow> message \<Rightarrow> string \<Rightarrow> handler \<Rightarrow> trace \<Rightarrow> error option \<times> trace" where
  "server_process env s m op handle t =
     (let baseKey = path_Base (Key m);
          t1 = t @ [EvCreateTemp (tempDir s) (''*_'' @ baseKey)]
      in case os_CreateTemp env t1 of
           Inl err \<Rightarrow> (Some (ErrTempfile err), t1)
         | Inr fname \<Rightarrow>
             (let (r, t2) =
                    (case getObject env s fname (Key m) t1 of
                       (Inl err, t2) \<Rightarrow> (Some err, t2)
                     | (Inr metaData, t2) \<Rightarrow>
                         (let input = \<lparr>Input.Filename = fname, Input.Metadata = metaData\<rparr>;
                              t3 = t2 @ [EvHandle op input]
                          in case handle t3 input of
                               Inl err \<Rightarrow> (Some (ErrHandle err), t3)
                             | Inr result \<Rightarrow>
                                 (let key = toClient @ ''/'' @ op @ ''/'' @ baseKey
                                  in upload env s (Filename result) key (Metadata result) t3)))
              in (r, t2 @ [EvRemove fname])))"

text \<open>
  What leaves the server's loop: an error returned, or the run-time panic of
  \<^verbatim>\<open>strings.Split(m.Key, "/")[1]\<close> (index 1 out of range with the given length).
\<close>

datatype abort = Err error | Panic panic

definition server_message :: "env \<Rightarrow> Server \<Rightarrow> message \<Rightarrow> trace \<Rightarrow> abort flow \<times> trace" where
  "server_message env s m t =
     (if message.Bucket m \<noteq> bucket s
      then (Return (Err (ErrBucket (bucket s) (message.Bucket m))), t)
      else let parts = strings_Split (Key m) CHR ''/''
           in if length parts \<le> 1 then (Return (Panic (IndexOutOfRange 1 (length parts))), t)
              else let op = parts ! 1
                   in case handlers s op of
                        None \<Rightarrow>
                          (case releaseMessage env s (ReceiptHandle m) t of
                             (Some err, t1) \<Rightarrow> (Return (Err err), t1)
                           | (None, t1) \<Rightarrow> (Next, t1))
                      | Some handle \<Rightarrow>
                          (case deleteMessage env s (ReceiptHandle m) t of
                             (Some err, t1) \<Rightarrow> (Return (Err err), t1)
                           | (None, t1) \<Rightarrow>
                               (case server_process env s m op handle t1 of
                                  (Some err, t2) \<Rightarrow> (Return (Err err), t2)
                                | (None, t2) \<Rightarrow> (Next, t2))))"

fun server_messages :: "env \<Rightarrow> Server \<Rightarrow> message list \<Rightarrow> trace \<Rightarrow> abort flow \<times> trace" where
  "server_messages env s [] t = (Next, t)"
| "server_messages env s (m # ms) t =
     (case server_message env s m t of
        (Return a, t1) \<Rightarrow> (Return a, t1)
      | (Next, t1) \<Rightarrow> server_messages env s ms t1)"

text \<open>
  \<^verbatim>\<open>ListenAndServe\<close>, with fuel as in \<open>client_loop\<close>. \<^verbatim>\<open>Close\<close> and the
  cancellation of the context come from other goroutines, so which case the select
  takes in a round is the environment's answer (\<open>server_select\<close>), not read from the
  \<open>quit\<close> field of the state this run was started with.
\<close>

fun ListenAndServe :: "nat \<Rightarrow> env \<Rightarrow> Server \<Rightarrow> trace \<Rightarrow> (outcome \<times> trace) option" where
  "ListenAndServe 0 env s t = None"
| "ListenAndServe (Suc n) env s t =
     (let t0 = t @ [EvSelect]
      in case server_select env t0 of
           CaseQuit \<Rightarrow> Some (Returned None, t0)
         | CaseDone \<Rightarrow> Some (Returned None, t0)
         | CaseDefault \<Rightarrow>
             (case Receive env s t0 of
                (Inl err, t1) \<Rightarrow> Some (Returned (Some err), t1)
              | (Inr ms, t1) \<Rightarrow>
                  (case server_messages env s ms t1 of
                     (Return (Err err), t2) \<Rightarrow> Some (Returned (Some err), t2)
                   | (Return (Panic p), t2) \<Rightarrow> Some (Panicked p, t2)
                   | (Next, t2) \<Rightarrow> ListenAndServe n env s (t2 @ [EvSleep (pollIntervall s)]))))"

subsection \<open>Vocabulary of the properties, and concrete inputs\<close>

text \<open>A call that takes a message off the queue for good, or puts it back.\<close>

definition is_queue_change :: "event \<Rightarrow> bool" where
  "is_queue_change e =
     (case e of
        EvDeleteMessage q h \<Rightarrow> True
      | EvChangeMessageVisibility q h n \<Rightarrow> True
      | _ \<Rightarrow> False)"

text \<open>A call that reads the request object, or the run of a handler.\<close>

definition is_download_or_handle :: "event \<Rightarrow> bool" where
  "is_download_or_handle e =
     (case e of
        EvGetObject b k \<Rightarrow> True
      | EvCopy f \<Rightarrow> True
      | EvHandle op i \<Rightarrow> True
      | _ \<Rightarrow> False)"

text \<open>
  An environment in which every call succeeds, the queue always delivers \<open>raw\<close>, no
  context is ever done and the server is never closed.
\<close>

definition env_ok :: "sqs_Message list \<Rightarrow> env" where
  "env_ok raw =
     \<lparr>sqs_ReceiveMessage = (\<lambda>t. Inr raw),
      sqs_DeleteMessage = (\<lambda>t. None),
      sqs_ChangeMessageVisibility = (\<lambda>t. None),
      s3_GetObject = (\<lambda>t. Inr [''foo'' \<mapsto> ''bar'']),
      io_Copy = (\<lambda>t. None),
      s3_DeleteObject = (\<lambda>t. None),
      os_Open = (\<lambda>t. None),
      s3_Upload = (\<lambda>t. None),
      os_CreateTemp = (\<lambda>t. Inr ''/tmp/s3rpc/1_f''),
      os_RemoveAll = (\<lambda>t. None),
      os_MkdirTemp = (\<lambda>t. Inr ''/tmp/s3rpc''),
      uuid_New = (\<lambda>t. ''6ba7b810-9dad-41d1-80b4-00c04fd430c8''),
      ctx_Done = (\<lambda>t. False),
      server_select = (\<lambda>t. CaseDefault)\<rparr>"

definition server0 :: "Handlers \<Rightarrow> Server" where
  "server0 hs =
     \<lparr>tempDir = ''/tmp/s3rpc'', bucket = ''s3fptest'', queue = ''in'',
      awsRegion = ''eu-north-1'', awsAccessKeyID = ''id'', awsSecretAccessKey = ''secret'',
      closeOnce = False, handlers = hs, pollIntervall = 10 * Second, quit = False\<rparr>"

definition client0 :: Client where
  "client0 =
     \<lparr>tempDir = ''/tmp/s3rpc'', bucket = ''s3fptest'', queue = ''out'',
      awsRegion = ''eu-north-1'', awsAccessKeyID = ''id'', awsSecretAccessKey = ''secret'',
      closeOnce = False, timeout = 5 * Minute\<rparr>"

text \<open>A handler like the test's: a new file beside the input, and one metadata entry.\<close>

definition handler0 :: handler where
  "handler0 t input =
     Inr \<lparr>Filename = Input.Filename input @ ''-changed'', Metadata = [''foo'' \<mapsto> ''bar'']\<rparr>"

definition msg :: "string \<Rightarrow> string \<Rightarrow> string \<Rightarrow> message" where
  "msg b k h = \<lparr>message.Bucket = b, Key = k, ReceiptHandle = h\<rparr>"

text \<open>A notification of one record, as the queue delivers it.\<close>

definition raw_msg :: "string \<Rightarrow> string \<Rightarrow> string \<Rightarrow> sqs_Message" where
  "raw_msg b k h = SqsMessage (Inr [(b, k)]) h"

text \<open>A request key as the client builds it, and the calls the server makes for it.\<close>

definition req_key :: string where
  "req_key = ''to_server/dosomething/6ba7b810-9dad-41d1-80b4-00c04fd430c8_go.mod''"

definition served_trace :: trace where
  "served_trace =
     [EvDeleteMessage ''in'' ''rh1'',
      EvCreateTemp ''/tmp/s3rpc'' ''*_6ba7b810-9dad-41d1-80b4-00c04fd430c8_go.mod'',
      EvGetObject ''s3fptest'' ''to_server/dosomething/6ba7b810-9dad-41d1-80b4-00c04fd430c8_go.mod'',
      EvCopy ''/tmp/s3rpc/1_f'',
      EvHandle ''dosomething'' \<lparr>Input.Filename = ''/tmp/s3rpc/1_f'', Input.Metadata = [''foo'' \<mapsto> ''bar'']\<rparr>,
      EvOpen ''/tmp/s3rpc/1_f-changed'',
      EvUpload ''s3fptest'' ''to_client/dosomething/6ba7b810-9dad-41d1-80b4-00c04fd430c8_go.mod''
        ''/tmp/s3rpc/1_f-changed'' [''foo'' \<mapsto> ''bar''],
      EvRemove ''/tmp/s3rpc/1_f'']"

text \<open>Options with every required field but the bucket.\<close>

definition client_opts0 :: ClientOptions where
  "client_opts0 =
     \<lparr>Region = [], Bucket = [], AccessKeyID = ''AKIA'', SecretAccessKey = ''secret'',
      ClientOptions.Queue = ''out'', Timeout = 0\<rparr>"

definition server_opts0 :: ServerOptions where
  "server_opts0 =
     \<lparr>Region = [], Bucket = [], AccessKeyID = ''AKIA'', SecretAccessKey = ''secret'',
      Handlers = [''dosomething'' \<mapsto> handler0], ServerOptions.Queue = ''in'', PollInterval = 0\<rparr>"

text \<open>As \<open>env_ok\<close>, but the scratch directory cannot be removed.\<close>

definition env_remove_fails :: env where
  "env_remove_fails = (env_ok [])\<lparr>os_RemoveAll := (\<lambda>t. Some (ExtError ''unlinkat /tmp/s3rpc: permission denied''))\<rparr>"


text \<open>
  The identifier \<open>env_ok\<close> hands out, the response key for it, the response key of
  another call, a key that holds the identifier in its operation segment only, and
  the calls of a client call that is answered in its first round.
\<close>

definition call_id :: string where
  "call_id = ''6ba7b810-9dad-41d1-80b4-00c04fd430c8''"

definition resp_key :: string where
  "resp_key = ''to_client/dosomething/6ba7b810-9dad-41d1-80b4-00c04fd430c8_go.mod''"

definition other_key :: string where
  "other_key = ''to_client/dosomething/0e9a6f0c-51b7-4e0c-9d3a-5a3f2c7d1b11_go.mod''"

definition foreign_key :: string where
  "foreign_key = ''to_client/6ba7b810-9dad-41d1-80b4-00c04fd430c8/other_go.mod''"

definition called_trace :: trace where
  "called_trace =
     [EvNewUUID, EvOpen ''/src/go.mod'',
      EvUpload ''s3fptest'' ''to_server/dosomething/6ba7b810-9dad-41d1-80b4-00c04fd430c8_go.mod''
        ''/src/go.mod'' Map.empty,
      EvSelect, EvReceiveMessage ''out'' 5 7 20,
      EvDeleteMessage ''out'' ''rh2'',
      EvCreateTemp ''/tmp/s3rpc'' ''*_6ba7b810-9dad-41d1-80b4-00c04fd430c8_go.mod'',
      EvGetObject ''s3fptest'' ''to_client/dosomething/6ba7b810-9dad-41d1-80b4-00c04fd430c8_go.mod'',
      EvCopy ''/tmp/s3rpc/1_f'',
      EvDeleteObject ''s3fptest'' ''to_client/dosomething/6ba7b810-9dad-41d1-80b4-00c04fd430c8_go.mod'',
      EvDeleteObject ''s3fptest'' ''to_server/dosomething/6ba7b810-9dad-41d1-80b4-00c04fd430c8_go.mod'']"

text \<open>
  As \<open>env_ok\<close> with a response for another call in the queue, and a deadline that
  has passed once more than five calls were made.
\<close>

definition env_deadline :: env where
  "env_deadline = (env_ok [raw_msg ''s3fptest'' other_key ''rh3''])\<lparr>ctx_Done := (\<lambda>t. 5 < length t)\<rparr>"

text \<open>
  What \<^verbatim>\<open>ExecuteFilename\<close> returns for the way its polling loop ended (\<open>None\<close>: the
  loop was still polling when the fuel ran out).
\<close>

definition call_result ::
  "((error option \<times> Output) \<times> trace) option \<Rightarrow> ((error + Output) \<times> trace) option" where
  "call_result l =
     (case l of
        None \<Rightarrow> None
      | Some ((Some err, output), t) \<Rightarrow> Some (Inl (ErrApply err), t)
      | Some ((None, output), t) \<Rightarrow> Some (Inr output, t))"

text \<open>As \<open>env_ok\<close>, but the server is closed after its first round.\<close>

definition env_one_round :: "sqs_Message list \<Rightarrow> env" where
  "env_one_round raw =
     (env_ok raw)\<lparr>server_select := (\<lambda>t. if length t = 1 then CaseDefault else CaseQuit)\<rparr>"


section \<open>Properties\<close>

subsection \<open>The library functions\<close>

lemma strings_Split_not_Nil: "strings_Split s sep \<noteq> []"
  by (induction s) (auto simp: Let_def)

lemma length_strings_Split:
  "length (strings_Split s sep) = Suc (length (filter (\<lambda>c. c = sep) s))"
  by (induction s) (auto simp: Let_def strings_Split_not_Nil)

lemma strings_Split_no_sep: "sep \<notin> set s \<Longrightarrow> strings_Split s sep = [s]"
  by (induction s) (auto simp: Let_def)

lemma strings_Split_append:
  "sep \<notin> set a \<Longrightarrow> strings_Split (a @ sep # b) sep = a # strings_Split b sep"
  by (induction a) (auto simp: Let_def)

lemma slash_iff_Split: "CHR ''/'' \<in> set k \<longleftrightarrow> 2 \<le> length (strings_Split k CHR ''/'')"
proof -
  have "CHR ''/'' \<in> set k \<longleftrightarrow> filter (\<lambda>c. c = CHR ''/'') k \<noteq> []"
    by (auto simp: filter_empty_conv)
  then show ?thesis
    by (cases "filter (\<lambda>c. c = CHR ''/'') k") (auto simp: length_strings_Split)
qed

lemma strings_HasPrefix_iff: "strings_HasPrefix s p \<longleftrightarrow> (\<exists>q. s = p @ q)"
  by (induction s p rule: strings_HasPrefix.induct) auto

text \<open>\<open>strings_Contains\<close> is "is a substring of".\<close>

lemma strings_Contains_iff: "strings_Contains s sub \<longleftrightarrow> (\<exists>p q. s = p @ sub @ q)"
proof (induction s)
  case Nil
  then show ?case by auto
next
  case (Cons c s)
  show ?case
  proof
    assume "strings_Contains (c # s) sub"
    then consider "strings_HasPrefix (c # s) sub" | "strings_Contains s sub" by auto
    then show "\<exists>p q. c # s = p @ sub @ q"
    proof cases
      case 1
      then obtain q where "c # s = sub @ q" by (auto simp: strings_HasPrefix_iff)
      then have "c # s = [] @ sub @ q" by simp
      then show ?thesis by blast
    next
      case 2
      then obtain p q where "s = p @ sub @ q" using Cons.IH by auto
      then have "c # s = (c # p) @ sub @ q" by simp
      then show ?thesis by blast
    qed
  next
    assume "\<exists>p q. c # s = p @ sub @ q"
    then obtain p q where pq: "c # s = p @ sub @ q" by auto
    show "strings_Contains (c # s) sub"
    proof (cases p)
      case Nil
      then have "strings_HasPrefix (c # s) sub" using pq by (auto simp: strings_HasPrefix_iff)
      then show ?thesis by simp
    next
      case (Cons a p')
      then have "s = p' @ sub @ q" using pq by simp
      then have "strings_Contains s sub" using Cons.IH by blast
      then show ?thesis by simp
    qed
  qed
qed

lemma path_Base_last:
  assumes nb: "CHR ''/'' \<notin> set b" and ne: "b \<noteq> []"
  shows "path_Base (p @ CHR ''/'' # b) = b"
proof -
  have "last b \<noteq> CHR ''/''" using nb ne last_in_set by metis
  then have "hd (rev b) \<noteq> CHR ''/''" using ne by (simp add: hd_rev)
  then have d: "dropWhile (\<lambda>c. c = CHR ''/'') (rev b @ CHR ''/'' # rev p) = rev b @ CHR ''/'' # rev p"
    using ne by (cases "rev b") auto
  have t: "takeWhile (\<lambda>c. c \<noteq> CHR ''/'') (rev b @ CHR ''/'' # rev p) = rev b"
    using nb by (subst takeWhile_append2) auto
  show ?thesis using ne by (simp add: path_Base_def d t Let_def)
qed

lemma path_Base_no_slash:
  assumes nb: "CHR ''/'' \<notin> set b" and ne: "b \<noteq> []"
  shows "path_Base b = b"
proof -
  have d: "dropWhile (\<lambda>c. c = CHR ''/'') (rev b) = rev b"
    using nb ne by (cases "rev b") auto
  have t: "takeWhile (\<lambda>c. c \<noteq> CHR ''/'') (rev b) = rev b"
    using nb by auto
  show ?thesis using ne by (simp add: path_Base_def d t Let_def)
qed

subsection \<open>The loops over a batch\<close>

lemma server_messages_append:
  "server_messages env s (xs @ ys) t =
     (case server_messages env s xs t of
        (Return a, t1) \<Rightarrow> (Return a, t1)
      | (Next, t1) \<Rightarrow> server_messages env s ys t1)"
  by (induction xs arbitrary: t) (auto split: prod.splits flow.splits)


text \<open>
  A round that passes over its whole batch hands the trace to the next round, so what
  is said below of one round from any trace holds of every round of a run.
\<close>

lemma ListenAndServe_round:
  assumes "server_select env (t @ [EvSelect]) = CaseDefault"
      and "Receive env s (t @ [EvSelect]) = (Inr ms, t1)"
      and "server_messages env s ms t1 = (Next, t2)"
  shows "ListenAndServe (Suc n) env s t = ListenAndServe n env s (t2 @ [EvSleep (pollIntervall s)])"
  using assms by simp

lemma client_loop_round:
  assumes "\<not> ctx_Done env (t @ [EvSelect])"
      and "Receive env c (t @ [EvSelect]) = (Inr ms, t1)"
      and "client_messages env c id' key ms output t1 = (Next, t2)"
  shows "client_loop (Suc n) env c id' key output t = client_loop n env c id' key output t2"
  using assms by simp

text \<open>The server's loop returns nil, with no further call, once it is closed or cancelled.\<close>

lemma ListenAndServe_closed:
  assumes "server_select env (t @ [EvSelect]) \<noteq> CaseDefault"
  shows "ListenAndServe (Suc n) env s t = Some (Returned None, t @ [EvSelect])"
  using assms by (cases "server_select env (t @ [EvSelect])") simp_all

text \<open>Every function only adds to the trace.\<close>

lemma Receive_events:
  "Receive env c t = (r, t') \<Longrightarrow> t' = t @ [EvReceiveMessage (queue c) 5 visibilitySeconds 20]"
  by (auto simp: Receive_def Let_def split: sum.splits)

lemma server_message_extends:
  "server_message env s m t = (r, t') \<Longrightarrow> \<exists>evs. t' = t @ evs"
  by (auto simp: server_message_def server_process_def getObject_def upload_def
        deleteMessage_def releaseMessage_def Let_def
      split: if_splits option.splits sum.splits prod.splits)

lemma server_messages_extends:
  "server_messages env s ms t = (r, t') \<Longrightarrow> \<exists>evs. t' = t @ evs"
proof (induction ms arbitrary: t)
  case Nil
  then show ?case by simp
next
  case (Cons m ms)
  obtain r1 t1 where m1: "server_message env s m t = (r1, t1)"
    by (cases "server_message env s m t")
  then obtain evs1 where e1: "t1 = t @ evs1"
    using server_message_extends by blast
  show ?case
  proof (cases r1)
    case Next
    then have "server_messages env s ms t1 = (r, t')"
      using Cons.prems m1 by simp
    then obtain evs2 where "t' = t1 @ evs2"
      using Cons.IH by blast
    then show ?thesis using e1 by simp
  next
    case (Return a)
    then have "t' = t1" using Cons.prems m1 by simp
    then show ?thesis using e1 by simp
  qed
qed

lemma ListenAndServe_extends:
  "ListenAndServe n env s t = Some (r, t') \<Longrightarrow> \<exists>evs. t' = t @ evs"
proof (induction n arbitrary: t)
  case 0
  then show ?case by simp
next
  case (Suc n)
  let ?t0 = "t @ [EvSelect]"
  show ?case
  proof (cases "server_select env ?t0 = CaseDefault")
    case False
    then have "t' = ?t0"
      using Suc.prems by (cases "server_select env ?t0") auto
    then show ?thesis by simp
  next
    case True
    obtain rr t1 where rc: "Receive env s ?t0 = (rr, t1)"
      by (cases "Receive env s ?t0")
    have t1: "t1 = ?t0 @ [EvReceiveMessage (queue s) 5 visibilitySeconds 20]"
      using Receive_events [OF rc] .
    show ?thesis
    proof (cases rr)
      case (Inl err)
      then have "t' = t1" using Suc.prems True rc by simp
      then show ?thesis using t1 by simp
    next
      case (Inr ms)
      obtain r2 t2 where sm: "server_messages env s ms t1 = (r2, t2)"
        by (cases "server_messages env s ms t1")
      then obtain evs2 where e2: "t2 = t1 @ evs2"
        using server_messages_extends by blast
      show ?thesis
      proof (cases r2)
        case Next
        then have "ListenAndServe n env s (t2 @ [EvSleep (pollIntervall s)]) = Some (r, t')"
          using Suc.prems True rc Inr sm by simp
        then obtain evs3 where "t' = (t2 @ [EvSleep (pollIntervall s)]) @ evs3"
          using Suc.IH by blast
        then show ?thesis using e2 t1 by simp
      next
        case (Return a)
        then have "t' = t2"
          using Suc.prems True rc Inr sm by (cases a) auto
        then show ?thesis using e2 t1 by simp
      qed
    qed
  qed
qed

subsection \<open>The server loop\<close>

text \<open>
  Claim C4. A message of the configured bucket that the loop has received and comes
  to (those before it in the batch were passed over), whose key has an operation
  segment (a second piece of the split at \<^verbatim>\<open>"/"\<close>) for which no handler is
  registered: the server makes exactly one call for it, the change of its visibility
  timeout to 0, and no call that deletes it. When that call succeeds
  \<^verbatim>\<open>ListenAndServe\<close> goes on with the next message of the batch, and with the next
  round after the last; when it fails \<^verbatim>\<open>ListenAndServe\<close> returns the call's error.
  Every run of \<^verbatim>\<open>ListenAndServe\<close> that returns has made the call.
\<close>

theorem C4_unregistered_operation_released:
  assumes "message.Bucket m = bucket s"
      and "CHR ''/'' \<in> set (Key m)"
      and "handlers s (strings_Split (Key m) CHR ''/'' ! 1) = None"
      and "t1 = t @ [EvChangeMessageVisibility (queue s) (ReceiptHandle m) 0]"
      and "server_select env (t0 @ [EvSelect]) = CaseDefault"
      and "Receive env s (t0 @ [EvSelect]) = (Inr (pre @ m # post), tr)"
      and "server_messages env s pre tr = (Next, t)"
  shows "server_message env s m t =
           (case sqs_ChangeMessageVisibility env t1 of
              None \<Rightarrow> Next
            | Some err \<Rightarrow> Return (Err err), t1)
         \<and> server_messages env s (m # ms) t =
             (case sqs_ChangeMessageVisibility env t1 of
                None \<Rightarrow> server_messages env s ms t1
              | Some err \<Rightarrow> (Return (Err err), t1))
         \<and> EvDeleteMessage (queue s) (ReceiptHandle m)
               \<notin> set (drop (length t) (snd (server_message env s m t)))
         \<and> ListenAndServe (Suc n) env s t0 =
             (case sqs_ChangeMessageVisibility env t1 of
                Some err \<Rightarrow> Some (Returned (Some err), t1)
              | None \<Rightarrow>
                  (case server_messages env s post t1 of
                     (Return (Err err), t2) \<Rightarrow> Some (Returned (Some err), t2)
                   | (Return (Panic p), t2) \<Rightarrow> Some (Panicked p, t2)
                   | (Next, t2) \<Rightarrow> ListenAndServe n env s (t2 @ [EvSleep (pollIntervall s)])))
         \<and> (\<forall>r t'. ListenAndServe (Suc n) env s t0 = Some (r, t')
               \<longrightarrow> (\<exists>evs. t' = t @ EvChangeMessageVisibility (queue s) (ReceiptHandle m) 0 # evs))"
proof -
  have l: "\<not> length (strings_Split (Key m) CHR ''/'') \<le> 1"
    using assms(2) by (simp add: slash_iff_Split)
  have sm: "server_message env s m t =
           (case sqs_ChangeMessageVisibility env t1 of
              None \<Rightarrow> Next
            | Some err \<Rightarrow> Return (Err err), t1)"
    using assms(1,3,4) l
    by (simp add: server_message_def releaseMessage_def Let_def split: option.splits)
  have batch: "server_messages env s (pre @ m # post) tr =
             (case sqs_ChangeMessageVisibility env t1 of
                None \<Rightarrow> server_messages env s post t1
              | Some err \<Rightarrow> (Return (Err err), t1))"
    using assms(7) by (simp add: server_messages_append sm split: option.splits)
  have loop: "ListenAndServe (Suc n) env s t0 =
             (case sqs_ChangeMessageVisibility env t1 of
                Some err \<Rightarrow> Some (Returned (Some err), t1)
              | None \<Rightarrow>
                  (case server_messages env s post t1 of
                     (Return (Err err), t2) \<Rightarrow> Some (Returned (Some err), t2)
                   | (Return (Panic p), t2) \<Rightarrow> Some (Panicked p, t2)
                   | (Next, t2) \<Rightarrow> ListenAndServe n env s (t2 @ [EvSleep (pollIntervall s)])))"
    using assms(5,6) batch by (simp split: option.splits)
  have tr: "\<exists>evs. t' = t @ EvChangeMessageVisibility (queue s) (ReceiptHandle m) 0 # evs"
    if run: "ListenAndServe (Suc n) env s t0 = Some (r, t')" for r t'
  proof (cases "sqs_ChangeMessageVisibility env t1")
    case (Some err)
    then have "t' = t1" using run loop by simp
    then show ?thesis using assms(4) by simp
  next
    case None
    obtain r2 t2 where p: "server_messages env s post t1 = (r2, t2)"
      by (cases "server_messages env s post t1")
    then obtain evs2 where e2: "t2 = t1 @ evs2"
      using server_messages_extends by blast
    show ?thesis
    proof (cases r2)
      case Next
      then have "ListenAndServe n env s (t2 @ [EvSleep (pollIntervall s)]) = Some (r, t')"
        using run loop None p by simp
      then obtain evs3 where "t' = (t2 @ [EvSleep (pollIntervall s)]) @ evs3"
        using ListenAndServe_extends by blast
      then show ?thesis using e2 assms(4) by simp
    next
      case (Return a)
      then have "t' = t2" using run loop None p by (cases a) auto
      then show ?thesis using e2 assms(4) by simp
    qed
  qed
  show ?thesis
    using sm loop tr by (simp add: assms(4) split: option.splits)
qed

theorem C4_unregistered_operation_released_witness:
  "message.Bucket (msg ''s3fptest'' ''to_server/resize/6ba7_go.mod'' ''rh1'') = bucket (server0 Map.empty)
   \<and> CHR ''/'' \<in> set (Key (msg ''s3fptest'' ''to_server/resize/6ba7_go.mod'' ''rh1''))
   \<and> handlers (server0 Map.empty)
        (strings_Split (Key (msg ''s3fptest'' ''to_server/resize/6ba7_go.mod'' ''rh1'')) CHR ''/'' ! 1) = None
   \<and> Receive (env_one_round [raw_msg ''s3fptest'' ''to_server/resize/6ba7_go.mod'' ''rh1''])
        (server0 Map.empty) [EvSelect]
       = (Inr [msg ''s3fptest'' ''to_server/resize/6ba7_go.mod'' ''rh1''],
          [EvSelect, EvReceiveMessage ''in'' 5 7 20])
   \<and> ListenAndServe (Suc (Suc 0))
        (env_one_round [raw_msg ''s3fptest'' ''to_server/resize/6ba7_go.mod'' ''rh1''])
        (server0 Map.empty) []
       = Some (Returned None,
           [EvSelect, EvReceiveMessage ''in'' 5 7 20,
            EvChangeMessageVisibility ''in'' ''rh1'' 0,
            EvSleep 10000000000, EvSelect])"
proof -
  let ?m = "msg ''s3fptest'' ''to_server/resize/6ba7_go.mod'' ''rh1''"
  let ?s = "server0 Map.empty"
  let ?env = "env_one_round [raw_msg ''s3fptest'' ''to_server/resize/6ba7_go.mod'' ''rh1'']"
  let ?tr = "[EvSelect, EvReceiveMessage ''in'' 5 7 20]"
  have h1: "message.Bucket ?m = bucket ?s"
    by (simp add: msg_def server0_def)
  have h2: "CHR ''/'' \<in> set (Key ?m)"
    by (simp add: msg_def)
  have h3: "handlers ?s (strings_Split (Key ?m) CHR ''/'' ! 1) = None"
    by (simp add: msg_def server0_def)
  have h4: "?tr @ [EvChangeMessageVisibility ''in'' ''rh1'' 0]
              = ?tr @ [EvChangeMessageVisibility (queue ?s) (ReceiptHandle ?m) 0]"
    by (simp add: msg_def server0_def)
  have h5: "server_select ?env ([] @ [EvSelect]) = CaseDefault"
    by (simp add: env_one_round_def env_ok_def)
  have h6: "Receive ?env ?s ([] @ [EvSelect]) = (Inr ([] @ ?m # []), ?tr)"
    by (simp add: Receive_def env_one_round_def env_ok_def raw_msg_def msg_def server0_def
          visibilitySeconds_def)
  have h7: "server_messages ?env ?s [] ?tr = (Next, ?tr)"
    by simp
  have o: "sqs_ChangeMessageVisibility ?env (?tr @ [EvChangeMessageVisibility ''in'' ''rh1'' 0]) = None"
    by (simp add: env_one_round_def env_ok_def)
  have q: "ListenAndServe (Suc 0) ?env ?s
             ([EvSelect, EvReceiveMessage ''in'' 5 7 20, EvChangeMessageVisibility ''in'' ''rh1'' 0]
              @ [EvSleep (pollIntervall ?s)])
           = Some (Returned None,
               [EvSelect, EvReceiveMessage ''in'' 5 7 20,
                EvChangeMessageVisibility ''in'' ''rh1'' 0,
                EvSleep 10000000000, EvSelect])"
    by (simp add: env_one_round_def env_ok_def server0_def Second_def)
  show ?thesis
    using C4_unregistered_operation_released [OF h1 h2 h3 h4 h5 h6 h7, of _ "Suc 0"] h1 h2 h3 h6 o q
    by simp
qed

subsection \<open>Keys\<close>

lemma path_Base_not_Nil: "path_Base p \<noteq> []"
  by (simp add: path_Base_def Let_def)

lemma path_Base_slash_free: "path_Base p \<noteq> ''/'' \<Longrightarrow> CHR ''/'' \<notin> set (path_Base p)"
proof -
  assume a: "path_Base p \<noteq> ''/''"
  have "CHR ''/'' \<notin> set (takeWhile (\<lambda>c. c \<noteq> CHR ''/'') xs)" for xs
    using set_takeWhileD by fastforce
  then show ?thesis using a
    by (auto simp: path_Base_def Let_def split: if_splits)
qed

lemma requestKey_parts:
  assumes "CHR ''/'' \<notin> set op" and "CHR ''/'' \<notin> set id'" and "filepath_Base filename \<noteq> ''/''"
  shows "strings_Split (requestKey op id' filename) CHR ''/''
           = [toServer, op, id' @ ''_'' @ filepath_Base filename]"
    and "path_Base (requestKey op id' filename) = id' @ ''_'' @ filepath_Base filename"
    and "path_Base (toClient @ ''/'' @ op @ ''/'' @ id' @ ''_'' @ filepath_Base filename)
           = id' @ ''_'' @ filepath_Base filename"
proof -
  let ?base = "id' @ ''_'' @ filepath_Base filename"
  have b: "CHR ''/'' \<notin> set ?base"
    using assms(2,3) path_Base_slash_free [of filename] by (simp add: filepath_Base_def)
  have ne: "?base \<noteq> []" by simp
  have ts: "CHR ''/'' \<notin> set toServer" by (simp add: toServer_def)
  have "requestKey op id' filename = toServer @ CHR ''/'' # (op @ CHR ''/'' # ?base)"
    by (simp add: requestKey_def)
  then show "strings_Split (requestKey op id' filename) CHR ''/'' = [toServer, op, ?base]"
    using ts assms(1) b by (simp add: strings_Split_append strings_Split_no_sep)
  show "path_Base (requestKey op id' filename) = ?base"
    using path_Base_last [OF b ne, of "toServer @ ''/'' @ op"] by (simp add: requestKey_def)
  show "path_Base (toClient @ ''/'' @ op @ ''/'' @ ?base) = ?base"
    using path_Base_last [OF b ne, of "toClient @ ''/'' @ op"] by simp
qed

subsection \<open>Bucket mismatch\<close>






subsection \<open>The operation segment\<close>

text \<open>
  Claim C10. For a message of the configured bucket whose key has no \<^verbatim>\<open>"/"\<close>, the
  split of the key has one piece, the read of piece 1 panics (index out of range 1
  with length 1) and the panic ends \<^verbatim>\<open>ListenAndServe\<close>. A key has a \<^verbatim>\<open>"/"\<close>
  exactly when its split has two pieces or more, and for such a key the read does
  not panic.
\<close>

theorem C10_operation_extraction_partial:
  assumes "message.Bucket m = bucket s"
      and "CHR ''/'' \<notin> set (Key m)"
      and "server_select env (t0 @ [EvSelect]) = CaseDefault"
      and "Receive env s (t0 @ [EvSelect]) = (Inr (pre @ m # post), t1)"
      and "server_messages env s pre t1 = (Next, t)"
  shows "length (strings_Split (Key m) CHR ''/'') = 1
       \<and> server_message env s m t = (Return (Panic (IndexOutOfRange 1 1)), t)
       \<and> ListenAndServe (Suc n) env s t0 = Some (Panicked (IndexOutOfRange 1 1), t)
       \<and> (\<forall>k. CHR ''/'' \<in> set k \<longleftrightarrow> 2 \<le> length (strings_Split k CHR ''/''))
       \<and> (\<forall>k p. 2 \<le> length (strings_Split k CHR ''/'')
            \<longrightarrow> fst (server_message env s (m\<lparr>Key := k\<rparr>) t) \<noteq> Return (Panic p))"
proof -
  have p: "server_message env s m t = (Return (Panic (IndexOutOfRange 1 1)), t)"
    using assms(1,2) by (simp add: server_message_def strings_Split_no_sep)
  have l: "ListenAndServe (Suc n) env s t0 = Some (Panicked (IndexOutOfRange 1 1), t)"
    using assms(3,4,5) p by (simp add: server_messages_append)
  have q: "fst (server_message env s (m\<lparr>Key := k\<rparr>) t) \<noteq> Return (Panic p)"
    if "2 \<le> length (strings_Split k CHR ''/'')" for p k
  proof -
    have "\<not> length (strings_Split k CHR ''/'') \<le> 1"
      using that by simp
    then show ?thesis
      by (auto simp: server_message_def Let_def split: option.splits prod.splits)
  qed
  show ?thesis using p l q assms(2) slash_iff_Split by (simp add: strings_Split_no_sep)
qed

theorem C10_operation_extraction_partial_witness:
  "message.Bucket (msg ''s3fptest'' ''go.mod'' ''rh1'') = bucket (server0 [''dosomething'' \<mapsto> handler0])
   \<and> CHR ''/'' \<notin> set (Key (msg ''s3fptest'' ''go.mod'' ''rh1''))
   \<and> server_message (env_ok []) (server0 [''dosomething'' \<mapsto> handler0]) (msg ''s3fptest'' ''go.mod'' ''rh1'') []
       = (Return (Panic (IndexOutOfRange 1 1)), [])
   \<and> ListenAndServe (Suc 0) (env_ok [raw_msg ''s3fptest'' ''go.mod'' ''rh1''])
        (server0 [''dosomething'' \<mapsto> handler0]) []
       = Some (Panicked (IndexOutOfRange 1 1), [EvSelect, EvReceiveMessage ''in'' 5 7 20])"
proof -
  let ?m = "msg ''s3fptest'' ''go.mod'' ''rh1''"
  let ?s = "server0 [''dosomething'' \<mapsto> handler0]"
  let ?env = "env_ok [raw_msg ''s3fptest'' ''go.mod'' ''rh1'']"
  have h1: "message.Bucket ?m = bucket ?s"
    by (simp add: msg_def server0_def)
  have h2: "CHR ''/'' \<notin> set (Key ?m)"
    by (simp add: msg_def)
  have h3: "server_select ?env ([] @ [EvSelect]) = CaseDefault"
    by (simp add: env_ok_def)
  have h4: "Receive ?env ?s ([] @ [EvSelect])
              = (Inr ([] @ ?m # []), [EvSelect, EvReceiveMessage ''in'' 5 7 20])"
    by (simp add: Receive_def env_ok_def raw_msg_def msg_def server0_def visibilitySeconds_def)
  have h5: "server_messages ?env ?s [] [EvSelect, EvReceiveMessage ''in'' 5 7 20]
              = (Next, [EvSelect, EvReceiveMessage ''in'' 5 7 20])"
    by simp
  have e: "server_message (env_ok []) ?s ?m [] = (Return (Panic (IndexOutOfRange 1 1)), [])"
    by (simp add: server_message_def msg_def server0_def)
  show ?thesis
    using C10_operation_extraction_partial [OF h1 h2 h3 h4 h5, of 0, THEN conjunct2, THEN conjunct2, THEN conjunct1]
      h1 h2 e
    by simp
qed

subsection \<open>A request that has a handler\<close>

lemma served:
  "server_message (env_ok []) (server0 [''dosomething'' \<mapsto> handler0])
     (msg ''s3fptest'' req_key ''rh1'') [] = (Next, served_trace)"
  by (simp add: server_message_def server_process_def getObject_def upload_def deleteMessage_def
        Let_def msg_def req_key_def server0_def env_ok_def handler0_def served_trace_def
        path_Base_def toClient_def)

lemma server_uploads_under_response_key:
  assumes "CHR ''/'' \<notin> set op" and "CHR ''/'' \<notin> set id'" and "filepath_Base filename \<noteq> ''/''"
      and "Key m = requestKey op id' filename"
      and "base = id' @ ''_'' @ filepath_Base filename"
      and "server_message env s m t = (r, t')"
  shows "(\<forall>b k f md. EvUpload b k f md \<in> set (drop (length t) t')
             \<longrightarrow> b = bucket s \<and> k = toClient @ ''/'' @ op @ ''/'' @ base)
       \<and> (r = Next \<and> handlers s op \<noteq> None
             \<longrightarrow> (\<exists>f md. EvUpload (bucket s) (toClient @ ''/'' @ op @ ''/'' @ base) f md
                            \<in> set (drop (length t) t')))"
proof -
  note parts = requestKey_parts [OF assms(1,2,3)]
  have sp: "strings_Split (Key m) CHR ''/'' = [toServer, op, base]"
    using parts(1) assms(4,5) by simp
  have pb: "path_Base (Key m) = base"
    using parts(2) assms(4,5) by simp
  have up: "\<forall>b k f md. EvUpload b k f md \<in> set (drop (length t) t')
             \<longrightarrow> b = bucket s \<and> k = toClient @ ''/'' @ op @ ''/'' @ base"
    using assms(6)
    by (auto simp: server_message_def server_process_def getObject_def upload_def
          deleteMessage_def releaseMessage_def Let_def sp pb
        split: if_splits option.splits sum.splits prod.splits)
  have ex: "\<exists>f md. EvUpload (bucket s) (toClient @ ''/'' @ op @ ''/'' @ base) f md
                            \<in> set (drop (length t) t')"
    if "r = Next" "handlers s op \<noteq> None"
    using assms(6) that
    by (auto simp: server_message_def server_process_def getObject_def upload_def
          deleteMessage_def releaseMessage_def Let_def sp pb
        split: if_splits option.splits sum.splits prod.splits)
  show ?thesis using up ex by blast
qed

text \<open>
  Claim C3. A request key \<^verbatim>\<open>to_server/{op}/{id}_{base(filename)}\<close>, where the
  operation and the identifier are single path segments and the file name is not made
  of slashes only, in a message of the configured bucket that the loop has received
  and comes to, with a handler registered for the operation. When the deletion of the
  message, the scratch file, the download and the handler succeed and the handler's
  file can be opened, the server uploads that file with the handler's metadata to the
  configured bucket under \<^verbatim>\<open>to_client/{op}/{id}_{base(filename)}\<close>: the upload is the
  next call, \<^verbatim>\<open>ListenAndServe\<close> goes on with the batch when it succeeds and returns
  its error when it fails, and every run of \<^verbatim>\<open>ListenAndServe\<close> that returns has made
  it. Whatever the environment answers, no upload for the message goes anywhere else.
  The base name of the response key is the base name of the request key.
\<close>

theorem C3_response_key_keeps_basename:
  assumes "CHR ''/'' \<notin> set op" and "CHR ''/'' \<notin> set id'" and "filepath_Base filename \<noteq> ''/''"
      and "Key m = requestKey op id' filename"
      and "base = id' @ ''_'' @ filepath_Base filename"
      and "message.Bucket m = bucket s"
      and "handlers s op = Some handle"
      and "tD = t @ [EvDeleteMessage (queue s) (ReceiptHandle m)]"
      and "sqs_DeleteMessage env tD = None"
      and "tC = tD @ [EvCreateTemp (tempDir s) (''*_'' @ base)]"
      and "os_CreateTemp env tC = Inr fname"
      and "s3_GetObject env (tC @ [EvGetObject (bucket s) (Key m)]) = Inr md"
      and "tG = tC @ [EvGetObject (bucket s) (Key m), EvCopy fname]"
      and "io_Copy env tG = None"
      and "input = \<lparr>Input.Filename = fname, Input.Metadata = md\<rparr>"
      and "tH = tG @ [EvHandle op input]"
      and "handle tH input = Inr result"
      and "os_Open env (tH @ [EvOpen (Filename result)]) = None"
      and "response = EvUpload (bucket s) (toClient @ ''/'' @ op @ ''/'' @ base)
                        (Filename result) (Metadata result)"
      and "tU = tH @ [EvOpen (Filename result), response]"
      and "server_select env (t0 @ [EvSelect]) = CaseDefault"
      and "Receive env s (t0 @ [EvSelect]) = (Inr (pre @ m # post), tr)"
      and "server_messages env s pre tr = (Next, t)"
  shows "Key m = toServer @ ''/'' @ op @ ''/'' @ base
       \<and> server_message env s m t =
           (case s3_Upload env tU of
              None \<Rightarrow> Next
            | Some err \<Rightarrow> Return (Err (ErrUpload err)), tU @ [EvRemove fname])
       \<and> ListenAndServe (Suc n) env s t0 =
           (case s3_Upload env tU of
              Some err \<Rightarrow> Some (Returned (Some (ErrUpload err)), tU @ [EvRemove fname])
            | None \<Rightarrow>
                (case server_messages env s post (tU @ [EvRemove fname]) of
                   (Return (Err err), t2) \<Rightarrow> Some (Returned (Some err), t2)
                 | (Return (Panic p), t2) \<Rightarrow> Some (Panicked p, t2)
                 | (Next, t2) \<Rightarrow> ListenAndServe n env s (t2 @ [EvSleep (pollIntervall s)])))
       \<and> (\<forall>r t'. ListenAndServe (Suc n) env s t0 = Some (r, t')
             \<longrightarrow> response \<in> set (drop (length t) t'))
       \<and> (\<forall>env' r' t'. server_message env' s m t = (r', t')
             \<longrightarrow> (\<forall>b k f md'. EvUpload b k f md' \<in> set (drop (length t) t')
                    \<longrightarrow> b = bucket s \<and> k = toClient @ ''/'' @ op @ ''/'' @ base))
       \<and> path_Base (toClient @ ''/'' @ op @ ''/'' @ base) = path_Base (Key m)
       \<and> path_Base (Key m) = base"
proof -
  note parts = requestKey_parts [OF assms(1,2,3)]
  have sp: "strings_Split (Key m) CHR ''/'' = [toServer, op, base]"
    using parts(1) assms(4,5) by simp
  have pb: "path_Base (Key m) = base"
    using parts(2) assms(4,5) by simp
  have go: "getObject env s fname (Key m) tC = (Inr md, tG)"
    using assms(12,13,14) by (simp add: getObject_def Let_def)
  have ul: "upload env s (Filename result) (toClient @ ''/'' @ op @ ''/'' @ base) (Metadata result) tH
              = (case s3_Upload env tU of None \<Rightarrow> None | Some err \<Rightarrow> Some (ErrUpload err), tU)"
    using assms(18,19,20) by (simp add: upload_def Let_def split: option.splits)
  have sp': "server_process env s m op handle tD
              = (case s3_Upload env tU of None \<Rightarrow> None | Some err \<Rightarrow> Some (ErrUpload err),
                 tU @ [EvRemove fname])"
    using assms(10,11,15,16,17) go ul pb
    by (simp add: server_process_def Let_def split: option.splits)
  have sm: "server_message env s m t =
           (case s3_Upload env tU of
              None \<Rightarrow> Next
            | Some err \<Rightarrow> Return (Err (ErrUpload err)), tU @ [EvRemove fname])"
    using assms(6,7,8,9) sp sp'
    by (simp add: server_message_def deleteMessage_def Let_def split: option.splits)
  have batch: "server_messages env s (pre @ m # post) tr =
           (case s3_Upload env tU of
              None \<Rightarrow> server_messages env s post (tU @ [EvRemove fname])
            | Some err \<Rightarrow> (Return (Err (ErrUpload err)), tU @ [EvRemove fname]))"
    using assms(23) by (simp add: server_messages_append sm split: option.splits)
  have loop: "ListenAndServe (Suc n) env s t0 =
           (case s3_Upload env tU of
              Some err \<Rightarrow> Some (Returned (Some (ErrUpload err)), tU @ [EvRemove fname])
            | None \<Rightarrow>
                (case server_messages env s post (tU @ [EvRemove fname]) of
                   (Return (Err err), t2) \<Rightarrow> Some (Returned (Some err), t2)
                 | (Return (Panic p), t2) \<Rightarrow> Some (Panicked p, t2)
                 | (Next, t2) \<Rightarrow> ListenAndServe n env s (t2 @ [EvSleep (pollIntervall s)])))"
    using assms(21,22) batch by (simp split: option.splits)
  have tU: "tU @ [EvRemove fname] = t @ (drop (length t) tU @ [EvRemove fname])"
           "response \<in> set (drop (length t) tU)"
    using assms(8,10,13,16,20) by simp_all
  have mem: "response \<in> set (drop (length t) t')"
    if run: "ListenAndServe (Suc n) env s t0 = Some (r, t')" for r t'
  proof -
    have "\<exists>evs. t' = (tU @ [EvRemove fname]) @ evs"
    proof (cases "s3_Upload env tU")
      case (Some err)
      then show ?thesis using run loop by simp
    next
      case None
      obtain r2 t2 where p: "server_messages env s post (tU @ [EvRemove fname]) = (r2, t2)"
        by (cases "server_messages env s post (tU @ [EvRemove fname])")
      then obtain evs2 where e2: "t2 = (tU @ [EvRemove fname]) @ evs2"
        using server_messages_extends by blast
      show ?thesis
      proof (cases r2)
        case Next
        then have "ListenAndServe n env s (t2 @ [EvSleep (pollIntervall s)]) = Some (r, t')"
          using run loop None p by simp
        then obtain evs3 where "t' = (t2 @ [EvSleep (pollIntervall s)]) @ evs3"
          using ListenAndServe_extends by blast
        then show ?thesis using e2 by simp
      next
        case (Return a)
        then have "t' = t2" using run loop None p by (cases a) auto
        then show ?thesis using e2 by simp
      qed
    qed
    then obtain evs where "t' = t @ (drop (length t) tU @ [EvRemove fname] @ evs)"
      using tU(1) by (metis append.assoc)
    then show ?thesis using tU(2) by simp
  qed
  have any: "\<forall>b k f md'. EvUpload b k f md' \<in> set (drop (length t) t')
                    \<longrightarrow> b = bucket s \<and> k = toClient @ ''/'' @ op @ ''/'' @ base"
    if "server_message env' s m t = (r', t')" for env' r' t'
    using server_uploads_under_response_key [OF assms(1,2,3,4,5) that] by blast
  have k: "Key m = toServer @ ''/'' @ op @ ''/'' @ base"
    using assms(4,5) by (simp add: requestKey_def)
  have pb2: "path_Base (toClient @ ''/'' @ op @ ''/'' @ base) = path_Base (Key m)"
    using pb parts(3) assms(5) by simp
  show ?thesis
    using k sm loop mem any pb pb2 by blast
qed

theorem C3_response_key_keeps_basename_witness:
  "CHR ''/'' \<notin> set ''dosomething''
   \<and> CHR ''/'' \<notin> set ''6ba7b810-9dad-41d1-80b4-00c04fd430c8''
   \<and> filepath_Base ''/src/go.mod'' \<noteq> ''/''
   \<and> Key (msg ''s3fptest'' req_key ''rh1'')
        = requestKey ''dosomething'' ''6ba7b810-9dad-41d1-80b4-00c04fd430c8'' ''/src/go.mod''
   \<and> Receive (env_one_round [raw_msg ''s3fptest'' req_key ''rh1''])
        (server0 [''dosomething'' \<mapsto> handler0]) [EvSelect]
       = (Inr [msg ''s3fptest'' req_key ''rh1''], [EvSelect, EvReceiveMessage ''in'' 5 7 20])
   \<and> ListenAndServe (Suc (Suc 0)) (env_one_round [raw_msg ''s3fptest'' req_key ''rh1''])
        (server0 [''dosomething'' \<mapsto> handler0]) []
       = Some (Returned None,
           [EvSelect, EvReceiveMessage ''in'' 5 7 20] @ served_trace
           @ [EvSleep 10000000000, EvSelect])
   \<and> EvUpload ''s3fptest'' ''to_client/dosomething/6ba7b810-9dad-41d1-80b4-00c04fd430c8_go.mod''
        ''/tmp/s3rpc/1_f-changed'' [''foo'' \<mapsto> ''bar'']
        \<in> set served_trace
   \<and> path_Base ''to_client/dosomething/6ba7b810-9dad-41d1-80b4-00c04fd430c8_go.mod''
        = path_Base req_key"
proof -
  let ?m = "msg ''s3fptest'' req_key ''rh1''"
  let ?s = "server0 [''dosomething'' \<mapsto> handler0]"
  let ?env = "env_one_round [raw_msg ''s3fptest'' req_key ''rh1'']"
  let ?tr = "[EvSelect, EvReceiveMessage ''in'' 5 7 20]"
  let ?base = "''6ba7b810-9dad-41d1-80b4-00c04fd430c8_go.mod''"
  let ?md = "[''foo'' \<mapsto> ''bar'']"
  let ?input = "\<lparr>Input.Filename = ''/tmp/s3rpc/1_f'', Input.Metadata = ?md\<rparr>"
  let ?result = "\<lparr>Filename = ''/tmp/s3rpc/1_f-changed'', Metadata = ?md\<rparr>"
  let ?tD = "?tr @ [EvDeleteMessage ''in'' ''rh1'']"
  let ?tC = "?tD @ [EvCreateTemp ''/tmp/s3rpc'' (''*_'' @ ?base)]"
  let ?tG = "?tC @ [EvGetObject ''s3fptest'' req_key, EvCopy ''/tmp/s3rpc/1_f'']"
  let ?tH = "?tG @ [EvHandle ''dosomething'' ?input]"
  let ?resp = "EvUpload ''s3fptest'' ''to_client/dosomething/6ba7b810-9dad-41d1-80b4-00c04fd430c8_go.mod''
                 ''/tmp/s3rpc/1_f-changed'' ?md"
  let ?tU = "?tH @ [EvOpen ''/tmp/s3rpc/1_f-changed'', ?resp]"
  have h1: "CHR ''/'' \<notin> set ''dosomething''" by simp
  have h2: "CHR ''/'' \<notin> set ''6ba7b810-9dad-41d1-80b4-00c04fd430c8''" by simp
  have h3: "filepath_Base ''/src/go.mod'' \<noteq> ''/''"
    by (simp add: filepath_Base_def path_Base_def)
  have h4: "Key ?m = requestKey ''dosomething'' ''6ba7b810-9dad-41d1-80b4-00c04fd430c8'' ''/src/go.mod''"
    by (simp add: msg_def req_key_def requestKey_def toServer_def filepath_Base_def path_Base_def)
  have h5: "?base = ''6ba7b810-9dad-41d1-80b4-00c04fd430c8'' @ ''_'' @ filepath_Base ''/src/go.mod''"
    by (simp add: filepath_Base_def path_Base_def)
  have h6: "message.Bucket ?m = bucket ?s"
    by (simp add: msg_def server0_def)
  have h7: "handlers ?s ''dosomething'' = Some handler0"
    by (simp add: server0_def)
  have h8: "?tD = ?tr @ [EvDeleteMessage (queue ?s) (ReceiptHandle ?m)]"
    by (simp add: msg_def server0_def)
  have h9: "sqs_DeleteMessage ?env ?tD = None"
    by (simp add: env_one_round_def env_ok_def)
  have h10: "?tC = ?tD @ [EvCreateTemp (tempDir ?s) (''*_'' @ ?base)]"
    by (simp add: server0_def)
  have h11: "os_CreateTemp ?env ?tC = Inr ''/tmp/s3rpc/1_f''"
    by (simp add: env_one_round_def env_ok_def)
  have h12: "s3_GetObject ?env (?tC @ [EvGetObject (bucket ?s) (Key ?m)]) = Inr ?md"
    by (simp add: env_one_round_def env_ok_def)
  have h13: "?tG = ?tC @ [EvGetObject (bucket ?s) (Key ?m), EvCopy ''/tmp/s3rpc/1_f'']"
    by (simp add: msg_def server0_def)
  have h14: "io_Copy ?env ?tG = None"
    by (simp add: env_one_round_def env_ok_def)
  have h15: "?input = \<lparr>Input.Filename = ''/tmp/s3rpc/1_f'', Input.Metadata = ?md\<rparr>"
    by simp
  have h16: "?tH = ?tG @ [EvHandle ''dosomething'' ?input]"
    by simp
  have h17: "handler0 ?tH ?input = Inr ?result"
    by (simp add: handler0_def)
  have h18: "os_Open ?env (?tH @ [EvOpen (Filename ?result)]) = None"
    by (simp add: env_one_round_def env_ok_def)
  have h19: "?resp = EvUpload (bucket ?s) (toClient @ ''/'' @ ''dosomething'' @ ''/'' @ ?base)
                        (Filename ?result) (Metadata ?result)"
    by (simp add: server0_def toClient_def)
  have h20: "?tU = ?tH @ [EvOpen (Filename ?result), ?resp]"
    by simp
  have h21: "server_select ?env ([] @ [EvSelect]) = CaseDefault"
    by (simp add: env_one_round_def env_ok_def)
  have h22: "Receive ?env ?s ([] @ [EvSelect]) = (Inr ([] @ ?m # []), ?tr)"
    by (simp add: Receive_def env_one_round_def env_ok_def raw_msg_def msg_def server0_def
          visibilitySeconds_def)
  have h23: "server_messages ?env ?s [] ?tr = (Next, ?tr)"
    by simp
  have o: "s3_Upload ?env ?tU = None"
    by (simp add: env_one_round_def env_ok_def)
  have q: "ListenAndServe (Suc 0) ?env ?s ((?tU @ [EvRemove ''/tmp/s3rpc/1_f'']) @ [EvSleep (pollIntervall ?s)])
           = Some (Returned None,
               ?tU @ [EvRemove ''/tmp/s3rpc/1_f'', EvSleep 10000000000, EvSelect])"
    by (simp add: env_one_round_def env_ok_def server0_def Second_def)
  have mem: "?resp \<in> set served_trace"
    by (simp add: served_trace_def)
  have pb: "path_Base ''to_client/dosomething/6ba7b810-9dad-41d1-80b4-00c04fd430c8_go.mod''
              = path_Base req_key"
    by (simp add: path_Base_def req_key_def)
  have run0: "ListenAndServe (Suc (Suc 0)) ?env ?s []
       = Some (Returned None, ?tU @ [EvRemove ''/tmp/s3rpc/1_f'', EvSleep 10000000000, EvSelect])"
    using C3_response_key_keeps_basename [OF h1 h2 h3 h4 h5 h6 h7 h8 h9 h10 h11 h12 h13 h14 h15 h16 h17 h18 h19 h20
        h21 h22 h23, of "Suc 0", THEN conjunct2, THEN conjunct2, THEN conjunct1] o q
    by (simp del: ListenAndServe.simps)
  have run: "ListenAndServe (Suc (Suc 0)) ?env ?s []
       = Some (Returned None, ?tr @ served_trace @ [EvSleep 10000000000, EvSelect])"
    using run0 by (simp del: ListenAndServe.simps add: served_trace_def req_key_def)
  show ?thesis
    using h1 h2 h3 h4 h22 run mem pb by simp
qed

text \<open>
  Claim C6. Whatever the server does for one message: if it reads the request object
  or runs a handler, then the first call it made for the message was the deletion of
  that message from the queue, the deletion succeeded, the read and the handler come
  after it, and no later call touches the queue (neither a deletion nor a release).
\<close>

theorem C6_delete_before_download_and_handler:
  assumes "server_message env s m t = (r, t')"
      and "e \<in> set (drop (length t) t')"
      and "is_download_or_handle e"
  shows "\<exists>rest. t' = t @ EvDeleteMessage (queue s) (ReceiptHandle m) # rest
           \<and> sqs_DeleteMessage env (t @ [EvDeleteMessage (queue s) (ReceiptHandle m)]) = None
           \<and> e \<in> set rest
           \<and> (\<forall>e' \<in> set rest. \<not> is_queue_change e')"
  using assms
  by (auto simp: server_message_def server_process_def getObject_def upload_def
        deleteMessage_def releaseMessage_def Let_def is_download_or_handle_def is_queue_change_def
      split: if_splits option.splits sum.splits prod.splits)

theorem C6_delete_before_download_and_handler_witness:
  "server_message (env_ok []) (server0 [''dosomething'' \<mapsto> handler0])
     (msg ''s3fptest'' req_key ''rh1'') [] = (Next, served_trace)
   \<and> EvHandle ''dosomething'' \<lparr>Input.Filename = ''/tmp/s3rpc/1_f'', Input.Metadata = [''foo'' \<mapsto> ''bar'']\<rparr>
        \<in> set (drop (length ([] :: trace)) served_trace)
   \<and> is_download_or_handle
        (EvHandle ''dosomething'' \<lparr>Input.Filename = ''/tmp/s3rpc/1_f'', Input.Metadata = [''foo'' \<mapsto> ''bar'']\<rparr>)
   \<and> (\<exists>rest. served_trace = EvDeleteMessage ''in'' ''rh1'' # rest
          \<and> EvHandle ''dosomething'' \<lparr>Input.Filename = ''/tmp/s3rpc/1_f'', Input.Metadata = [''foo'' \<mapsto> ''bar'']\<rparr>
               \<in> set rest)"
proof -
  let ?e = "EvHandle ''dosomething'' \<lparr>Input.Filename = ''/tmp/s3rpc/1_f'', Input.Metadata = [''foo'' \<mapsto> ''bar'']\<rparr>"
  have h2: "?e \<in> set (drop (length ([] :: trace)) served_trace)"
    by (simp add: served_trace_def)
  have h3: "is_download_or_handle ?e"
    by (simp add: is_download_or_handle_def)
  show ?thesis
    using C6_delete_before_download_and_handler [OF served h2 h3] served h2 h3
    by (auto simp: msg_def server0_def)
qed

subsection \<open>Construction\<close>

text \<open>
  Against claim C7 as stated: options without a bucket are accepted, by \<^verbatim>\<open>NewClient\<close>
  and by \<^verbatim>\<open>NewServer\<close>.
\<close>

theorem C7_empty_bucket_accepted:
  "Bucket client_opts0 = [] \<and> Bucket server_opts0 = []
   \<and> NewClient (env_ok []) client_opts0 []
       = (Inr \<lparr>tempDir = ''/tmp/s3rpc'', bucket = [], queue = ''out'',
               awsRegion = ''eu-north-1'', awsAccessKeyID = ''AKIA'', awsSecretAccessKey = ''secret'',
               closeOnce = False, timeout = 300000000000\<rparr>,
          [EvMkdirTemp [] ''s3rpc_client''])
   \<and> NewServer (env_ok []) server_opts0 []
       = (Inr \<lparr>tempDir = ''/tmp/s3rpc'', bucket = [], queue = ''in'',
               awsRegion = ''eu-north-1'', awsAccessKeyID = ''AKIA'', awsSecretAccessKey = ''secret'',
               closeOnce = False, handlers = [''dosomething'' \<mapsto> handler0],
               pollIntervall = 10000000000, quit = False\<rparr>,
          [EvMkdirTemp [] ''s3rpc_server''])"
  by (simp add: client_opts0_def server_opts0_def NewClient_def NewServer_def
        ClientOptions_init_def ServerOptions_init_def env_ok_def defaultRegion_def
        Minute_def Second_def Let_def)

text \<open>
  Claim C7, as amended. \<^verbatim>\<open>init\<close> fails exactly when the access key id, the secret
  access key or the queue is empty, with the error of the first of them that is (in
  this order). It replaces an empty region by the default and never looks at the
  bucket. \<^verbatim>\<open>NewClient\<close> and \<^verbatim>\<open>NewServer\<close> return that error before any call;
  otherwise they succeed exactly when the scratch directory can be made, and what
  they build holds the options' bucket and queue as given (empty or not), the region
  after the default, and the default timeout or poll interval where the option is 0.
\<close>

theorem C7_construction_requires_keys_and_queue:
  "fst (ClientOptions_init copts)
     = (if AccessKeyID copts = [] then Some (ErrNew ''access key id is required'')
        else if SecretAccessKey copts = [] then Some (ErrNew ''secret access key is required'')
        else if ClientOptions.Queue copts = [] then Some (ErrNew ''queue is required'')
        else None)
   \<and> (case fst (ClientOptions_init copts) of
         Some err \<Rightarrow> NewClient env copts t = (Inl err, t)
       | None \<Rightarrow>
           (case os_MkdirTemp env (t @ [EvMkdirTemp [] ''s3rpc_client'']) of
              Inl err \<Rightarrow> NewClient env copts t = (Inl err, t @ [EvMkdirTemp [] ''s3rpc_client''])
            | Inr dir \<Rightarrow>
                NewClient env copts t
                  = (Inr \<lparr>tempDir = dir, bucket = Bucket copts, queue = ClientOptions.Queue copts,
                          awsRegion = (if Region copts = [] then defaultRegion else Region copts),
                          awsAccessKeyID = AccessKeyID copts,
                          awsSecretAccessKey = SecretAccessKey copts, closeOnce = False,
                          timeout = (if Timeout copts = 0 then 5 * Minute else Timeout copts)\<rparr>,
                     t @ [EvMkdirTemp [] ''s3rpc_client''])))
   \<and> fst (ServerOptions_init sopts)
     = (if AccessKeyID sopts = [] then Some (ErrNew ''access key id is required'')
        else if SecretAccessKey sopts = [] then Some (ErrNew ''secret access key is required'')
        else if ServerOptions.Queue sopts = [] then Some (ErrNew ''queue is required'')
        else None)
   \<and> (case fst (ServerOptions_init sopts) of
         Some err \<Rightarrow> NewServer env sopts t = (Inl err, t)
       | None \<Rightarrow>
           (case os_MkdirTemp env (t @ [EvMkdirTemp [] ''s3rpc_server'']) of
              Inl err \<Rightarrow> NewServer env sopts t = (Inl err, t @ [EvMkdirTemp [] ''s3rpc_server''])
            | Inr dir \<Rightarrow>
                NewServer env sopts t
                  = (Inr \<lparr>tempDir = dir, bucket = Bucket sopts, queue = ServerOptions.Queue sopts,
                          awsRegion = (if Region sopts = [] then defaultRegion else Region sopts),
                          awsAccessKeyID = AccessKeyID sopts,
                          awsSecretAccessKey = SecretAccessKey sopts, closeOnce = False,
                          handlers = Handlers sopts,
                          pollIntervall = (if PollInterval sopts = 0 then 10 * Second
                                           else PollInterval sopts),
                          quit = False\<rparr>,
                     t @ [EvMkdirTemp [] ''s3rpc_server''])))
   \<and> (\<exists>cl. fst (NewClient env copts t) = Inr cl)
     = (AccessKeyID copts \<noteq> [] \<and> SecretAccessKey copts \<noteq> [] \<and> ClientOptions.Queue copts \<noteq> []
        \<and> (\<exists>dir. os_MkdirTemp env (t @ [EvMkdirTemp [] ''s3rpc_client'']) = Inr dir))
   \<and> (\<exists>sv. fst (NewServer env sopts t) = Inr sv)
     = (AccessKeyID sopts \<noteq> [] \<and> SecretAccessKey sopts \<noteq> [] \<and> ServerOptions.Queue sopts \<noteq> []
        \<and> (\<exists>dir. os_MkdirTemp env (t @ [EvMkdirTemp [] ''s3rpc_server'']) = Inr dir))
   \<and> Region (snd (ClientOptions_init copts)) = (if Region copts = [] then defaultRegion else Region copts)
   \<and> Region (snd (ServerOptions_init sopts)) = (if Region sopts = [] then defaultRegion else Region sopts)
   \<and> Bucket (snd (ClientOptions_init copts)) = Bucket copts
   \<and> Bucket (snd (ServerOptions_init sopts)) = Bucket sopts"
proof -
  have c1: "fst (ClientOptions_init copts)
     = (if AccessKeyID copts = [] then Some (ErrNew ''access key id is required'')
        else if SecretAccessKey copts = [] then Some (ErrNew ''secret access key is required'')
        else if ClientOptions.Queue copts = [] then Some (ErrNew ''queue is required'')
        else None)"
    by (simp add: ClientOptions_init_def Let_def)
  have c2: "case fst (ClientOptions_init copts) of
         Some err \<Rightarrow> NewClient env copts t = (Inl err, t)
       | None \<Rightarrow>
           (case os_MkdirTemp env (t @ [EvMkdirTemp [] ''s3rpc_client'']) of
              Inl err \<Rightarrow> NewClient env copts t = (Inl err, t @ [EvMkdirTemp [] ''s3rpc_client''])
            | Inr dir \<Rightarrow>
                NewClient env copts t
                  = (Inr \<lparr>tempDir = dir, bucket = Bucket copts, queue = ClientOptions.Queue copts,
                          awsRegion = (if Region copts = [] then defaultRegion else Region copts),
                          awsAccessKeyID = AccessKeyID copts,
                          awsSecretAccessKey = SecretAccessKey copts, closeOnce = False,
                          timeout = (if Timeout copts = 0 then 5 * Minute else Timeout copts)\<rparr>,
                     t @ [EvMkdirTemp [] ''s3rpc_client'']))"
    by (auto simp: NewClient_def ClientOptions_init_def Let_def split: option.splits sum.splits)
  have s1: "fst (ServerOptions_init sopts)
     = (if AccessKeyID sopts = [] then Some (ErrNew ''access key id is required'')
        else if SecretAccessKey sopts = [] then Some (ErrNew ''secret access key is required'')
        else if ServerOptions.Queue sopts = [] then Some (ErrNew ''queue is required'')
        else None)"
    by (simp add: ServerOptions_init_def Let_def)
  have s2: "case fst (ServerOptions_init sopts) of
         Some err \<Rightarrow> NewServer env sopts t = (Inl err, t)
       | None \<Rightarrow>
           (case os_MkdirTemp env (t @ [EvMkdirTemp [] ''s3rpc_server'']) of
              Inl err \<Rightarrow> NewServer env sopts t = (Inl err, t @ [EvMkdirTemp [] ''s3rpc_server''])
            | Inr dir \<Rightarrow>
                NewServer env sopts t
                  = (Inr \<lparr>tempDir = dir, bucket = Bucket sopts, queue = ServerOptions.Queue sopts,
                          awsRegion = (if Region sopts = [] then defaultRegion else Region sopts),
                          awsAccessKeyID = AccessKeyID sopts,
                          awsSecretAccessKey = SecretAccessKey sopts, closeOnce = False,
                          handlers = Handlers sopts,
                          pollIntervall = (if PollInterval sopts = 0 then 10 * Second
                                           else PollInterval sopts),
                          quit = False\<rparr>,
                     t @ [EvMkdirTemp [] ''s3rpc_server'']))"
    by (auto simp: NewServer_def ServerOptions_init_def Let_def split: option.splits sum.splits)
  have c3: "(\<exists>cl. fst (NewClient env copts t) = Inr cl)
     = (AccessKeyID copts \<noteq> [] \<and> SecretAccessKey copts \<noteq> [] \<and> ClientOptions.Queue copts \<noteq> []
        \<and> (\<exists>dir. os_MkdirTemp env (t @ [EvMkdirTemp [] ''s3rpc_client'']) = Inr dir))"
    by (auto simp: NewClient_def ClientOptions_init_def Let_def split: option.splits sum.splits)
  have s3: "(\<exists>sv. fst (NewServer env sopts t) = Inr sv)
     = (AccessKeyID sopts \<noteq> [] \<and> SecretAccessKey sopts \<noteq> [] \<and> ServerOptions.Queue sopts \<noteq> []
        \<and> (\<exists>dir. os_MkdirTemp env (t @ [EvMkdirTemp [] ''s3rpc_server'']) = Inr dir))"
    by (auto simp: NewServer_def ServerOptions_init_def Let_def split: option.splits sum.splits)
  have r: "Region (snd (ClientOptions_init copts)) = (if Region copts = [] then defaultRegion else Region copts)"
          "Region (snd (ServerOptions_init sopts)) = (if Region sopts = [] then defaultRegion else Region sopts)"
          "Bucket (snd (ClientOptions_init copts)) = Bucket copts"
          "Bucket (snd (ServerOptions_init sopts)) = Bucket sopts"
    by (simp_all add: ClientOptions_init_def ServerOptions_init_def Let_def)
  show ?thesis using c1 c2 s1 s2 c3 s3 r by blast
qed

subsection \<open>Close\<close>

lemma NewServer_open:
  "NewServer env opts t = (Inr s, t') \<Longrightarrow> \<not> quit s \<and> \<not> closeOnce s"
  by (auto simp: NewServer_def Let_def split: prod.splits option.splits sum.splits)

text \<open>
  Against claim C9 as stated: a second \<^verbatim>\<open>Close\<close> of a client removes the scratch
  directory again, and a second \<^verbatim>\<open>Close\<close> of a server returns nil after a first one
  that returned an error.
\<close>

theorem C9_close_not_uniformly_idempotent:
  "Client_Close (env_ok []) client0 [] = (None, client0, [EvRemoveAll ''/tmp/s3rpc''])
   \<and> Client_Close (env_ok []) client0 [EvRemoveAll ''/tmp/s3rpc'']
       = (None, client0, [EvRemoveAll ''/tmp/s3rpc'', EvRemoveAll ''/tmp/s3rpc''])
   \<and> Server_Close env_remove_fails (server0 Map.empty) []
       = (Returned (Some (ExtError ''unlinkat /tmp/s3rpc: permission denied'')),
          (server0 Map.empty)\<lparr>closeOnce := True, quit := True\<rparr>,
          [EvCloseQuit, EvRemoveAll ''/tmp/s3rpc''])
   \<and> Server_Close env_remove_fails ((server0 Map.empty)\<lparr>closeOnce := True, quit := True\<rparr>)
         [EvCloseQuit, EvRemoveAll ''/tmp/s3rpc'']
       = (Returned None, (server0 Map.empty)\<lparr>closeOnce := True, quit := True\<rparr>,
          [EvCloseQuit, EvRemoveAll ''/tmp/s3rpc''])"
  by (simp add: Client_Close_def Server_Close_def client0_def server0_def env_ok_def
        env_remove_fails_def Let_def)

text \<open>
  Claim C9, as amended. For a server whose channel is open unless its \<^verbatim>\<open>Once\<close> has
  run (every server made by \<^verbatim>\<open>NewServer\<close>, lemma \<open>NewServer_open\<close>), two calls of
  \<^verbatim>\<open>Close\<close> in a row: neither panics; the clean-up (closing the channel, removing
  the scratch directory) runs in the first call if it has not run before and never
  in the second, which makes no call, changes nothing and returns nil; so both
  return the same whenever the first returned nil. \<^verbatim>\<open>Close\<close> of a client has no
  such guard: each call removes the scratch directory and returns what the removal
  returned.
\<close>

theorem C9_server_closes_once_client_every_time:
  assumes "quit s \<longrightarrow> closeOnce s"
      and "Server_Close env s t = (r1, s1, t1)"
      and "Server_Close env s1 t1 = (r2, s2, t2)"
      and "Client_Close env' c u = (e1, c1, u1)"
      and "Client_Close env' c1 u1 = (e2, c2, u2)"
  shows "(\<forall>p. r1 \<noteq> Panicked p) \<and> closeOnce s1
       \<and> r2 = Returned None \<and> s2 = s1 \<and> t2 = t1
       \<and> (if closeOnce s then t1 = t \<and> r1 = Returned None
          else t1 = t @ [EvCloseQuit, EvRemoveAll (tempDir s)]
               \<and> r1 = Returned (os_RemoveAll env t1))
       \<and> (r1 = Returned None \<longrightarrow> r2 = r1)
       \<and> u1 = u @ [EvRemoveAll (tempDir c)] \<and> e1 = os_RemoveAll env' u1
       \<and> u2 = u @ [EvRemoveAll (tempDir c), EvRemoveAll (tempDir c)] \<and> e2 = os_RemoveAll env' u2
       \<and> c2 = c"
proof -
  have sv: "(\<forall>p. r1 \<noteq> Panicked p) \<and> closeOnce s1
       \<and> r2 = Returned None \<and> s2 = s1 \<and> t2 = t1
       \<and> (if closeOnce s then t1 = t \<and> r1 = Returned None
          else t1 = t @ [EvCloseQuit, EvRemoveAll (tempDir s)]
               \<and> r1 = Returned (os_RemoveAll env t1))"
    using assms(1,2,3) by (auto simp: Server_Close_def Let_def split: if_splits)
  have cl: "u1 = u @ [EvRemoveAll (tempDir c)] \<and> e1 = os_RemoveAll env' u1
       \<and> u2 = u @ [EvRemoveAll (tempDir c), EvRemoveAll (tempDir c)] \<and> e2 = os_RemoveAll env' u2
       \<and> c2 = c"
    using assms(4,5) by (auto simp: Client_Close_def Let_def)
  show ?thesis using sv cl by simp
qed

theorem C9_server_closes_once_client_every_time_witness:
  "\<not> quit (server0 Map.empty)
   \<and> Server_Close (env_ok []) (server0 Map.empty) []
       = (Returned None, (server0 Map.empty)\<lparr>closeOnce := True, quit := True\<rparr>,
          [EvCloseQuit, EvRemoveAll ''/tmp/s3rpc''])
   \<and> Server_Close (env_ok []) ((server0 Map.empty)\<lparr>closeOnce := True, quit := True\<rparr>)
         [EvCloseQuit, EvRemoveAll ''/tmp/s3rpc'']
       = (Returned None, (server0 Map.empty)\<lparr>closeOnce := True, quit := True\<rparr>,
          [EvCloseQuit, EvRemoveAll ''/tmp/s3rpc''])
   \<and> Client_Close (env_ok []) client0 [] = (None, client0, [EvRemoveAll ''/tmp/s3rpc''])
   \<and> Client_Close (env_ok []) client0 [EvRemoveAll ''/tmp/s3rpc'']
       = (None, client0, [EvRemoveAll ''/tmp/s3rpc'', EvRemoveAll ''/tmp/s3rpc''])"
proof -
  let ?s = "server0 Map.empty"
  let ?s1 = "(server0 Map.empty)\<lparr>closeOnce := True, quit := True\<rparr>"
  let ?t1 = "[EvCloseQuit, EvRemoveAll ''/tmp/s3rpc'']"
  have h0: "\<not> quit ?s"
    by (simp add: server0_def)
  then have h1: "quit ?s \<longrightarrow> closeOnce ?s"
    by simp
  have h2: "Server_Close (env_ok []) ?s [] = (Returned None, ?s1, ?t1)"
    by (simp add: Server_Close_def server0_def env_ok_def Let_def)
  have h3: "Server_Close (env_ok []) ?s1 ?t1 = (Returned None, ?s1, ?t1)"
    by (simp add: Server_Close_def server0_def env_ok_def Let_def)
  have h4: "Client_Close (env_ok []) client0 [] = (None, client0, [EvRemoveAll ''/tmp/s3rpc''])"
    by (simp add: Client_Close_def client0_def env_ok_def Let_def)
  have h5: "Client_Close (env_ok []) client0 [EvRemoveAll ''/tmp/s3rpc'']
       = (None, client0, [EvRemoveAll ''/tmp/s3rpc'', EvRemoveAll ''/tmp/s3rpc''])"
    by (simp add: Client_Close_def client0_def env_ok_def Let_def)
  show ?thesis
    using C9_server_closes_once_client_every_time [OF h1 h2 h3 h4 h5] h0 h2 h3 h4 h5
    by simp
qed

subsection \<open>The calls of a client call\<close>





lemma ExecuteFilename_polls:
  assumes "upload env c filename (requestKey op (uuid_New env (t @ [EvNewUUID])) filename) Map.empty
             (t @ [EvNewUUID]) = (None, t1)"
  shows "ExecuteFilename n env c op filename t
           = call_result (client_loop n env c (uuid_New env (t @ [EvNewUUID]))
               (requestKey op (uuid_New env (t @ [EvNewUUID])) filename)
               \<lparr>Filename = [], Metadata = Map.empty\<rparr> t1)"
  using assms
  by (simp add: ExecuteFilename_def call_result_def Let_def split: option.splits prod.splits)

lemma client_answered:
  assumes "message.Bucket m = bucket c"
      and "strings_Contains (Key m) id'"
      and "tD = t @ [EvDeleteMessage (queue c) (ReceiptHandle m)]"
      and "sqs_DeleteMessage env tD = None"
      and "tC = tD @ [EvCreateTemp (tempDir c) (''*_'' @ path_Base (Key m))]"
      and "os_CreateTemp env tC = Inr fname"
      and "s3_GetObject env (tC @ [EvGetObject (bucket c) (Key m)]) = Inr md"
      and "tG = tC @ [EvGetObject (bucket c) (Key m), EvCopy fname]"
      and "io_Copy env tG = None"
  shows "client_message env c id' key m output t
           = (Return (None, output\<lparr>Filename := fname, Metadata := md\<rparr>),
              tG @ [EvDeleteObject (bucket c) (Key m), EvDeleteObject (bucket c) key])"
  using assms
  by (simp add: client_message_def client_download_def deleteMessage_def getObject_def
        deleteObject_def Let_def)

lemma contains_call_id: "strings_Contains resp_key call_id"
  by (simp add: resp_key_def call_id_def)

lemma not_contains_other: "\<not> strings_Contains other_key call_id"
  by (simp add: other_key_def call_id_def)

lemma called:
  "ExecuteFilename (Suc 0) (env_ok [raw_msg ''s3fptest'' resp_key ''rh2'']) client0
     ''dosomething'' ''/src/go.mod'' []
   = Some (Inr \<lparr>Filename = ''/tmp/s3rpc/1_f'', Metadata = [''foo'' \<mapsto> ''bar'']\<rparr>, called_trace)"
proof -
  have c: "strings_Contains ''to_client/dosomething/6ba7b810-9dad-41d1-80b4-00c04fd430c8_go.mod''
             ''6ba7b810-9dad-41d1-80b4-00c04fd430c8''"
    using contains_call_id by (simp add: resp_key_def call_id_def)
  show ?thesis
    by (simp add: ExecuteFilename_def upload_def requestKey_def filepath_Base_def path_Base_def
        toServer_def Receive_def visibilitySeconds_def raw_msg_def resp_key_def
        client_message_def client_download_def deleteMessage_def getObject_def deleteObject_def
        client0_def env_ok_def called_trace_def Let_def c)
qed




subsection \<open>The deadline of a client call\<close>

text \<open>
  A round that finds the context done ends the loop with nil; a round in which the
  receive fails (as it does when the deadline passes during the long poll) ends it
  with the error.
\<close>

lemma client_loop_deadline:
  "ctx_Done env (t @ [EvSelect]) \<Longrightarrow>
   client_loop (Suc n) env c id' key output t = Some ((None, output), t @ [EvSelect])"
  by simp

lemma ExecuteFilename_deadline:
  assumes "upload env c filename (requestKey op (uuid_New env (t @ [EvNewUUID])) filename) Map.empty
             (t @ [EvNewUUID]) = (None, t1)"
      and "ctx_Done env (t1 @ [EvSelect])"
  shows "ExecuteFilename (Suc n) env c op filename t
           = Some (Inr \<lparr>Filename = [], Metadata = Map.empty\<rparr>, t1 @ [EvSelect])"
  using assms by (simp add: ExecuteFilename_def Let_def)

lemma client_loop_receive_error:
  assumes "\<not> ctx_Done env (t @ [EvSelect])"
      and "sqs_ReceiveMessage env (t @ [EvSelect, EvReceiveMessage (queue c) 5 visibilitySeconds 20])
             = Inl err"
  shows "client_loop (Suc n) env c id' key output t
           = Some ((Some err, output), t @ [EvSelect, EvReceiveMessage (queue c) 5 visibilitySeconds 20])"
  using assms by (simp add: Receive_def Let_def)

text \<open>
  Claim C1 says that a call with no matching message before the deadline returns an
  error. Evaluated on the code: the only message received belongs to another call and
  is released, the next round finds the context done, and \<^verbatim>\<open>ExecuteFilename\<close>
  returns the zero \<^verbatim>\<open>Output\<close> with a nil error.
\<close>

theorem C1_deadline_returns_empty_output_without_error:
  "ExecuteFilename (Suc (Suc 0)) env_deadline client0 ''dosomething'' ''/src/go.mod'' []
   = Some (Inr \<lparr>Filename = [], Metadata = Map.empty\<rparr>,
       [EvNewUUID, EvOpen ''/src/go.mod'',
        EvUpload ''s3fptest'' ''to_server/dosomething/6ba7b810-9dad-41d1-80b4-00c04fd430c8_go.mod''
          ''/src/go.mod'' Map.empty,
        EvSelect, EvReceiveMessage ''out'' 5 7 20,
        EvChangeMessageVisibility ''out'' ''rh3'' 0,
        EvSelect])"
proof -
  have c: "\<not> strings_Contains ''to_client/dosomething/0e9a6f0c-51b7-4e0c-9d3a-5a3f2c7d1b11_go.mod''
             ''6ba7b810-9dad-41d1-80b4-00c04fd430c8''"
    using not_contains_other by (simp add: other_key_def call_id_def)
  show ?thesis
    by (simp add: ExecuteFilename_def upload_def requestKey_def filepath_Base_def path_Base_def
        toServer_def Receive_def visibilitySeconds_def raw_msg_def other_key_def
        client_message_def releaseMessage_def
        client0_def env_ok_def env_deadline_def Let_def c)
qed

subsection \<open>Messages of other calls\<close>


text \<open>
  The match is \<^verbatim>\<open>strings.Contains(m.Key, id)\<close>, on the whole key: a key that holds the
  identifier in its operation segment only is taken for the answer. (The comment in
  the server's loop speaks of the identifier in the base name.) The amended claim
  below is about keys that do not contain the identifier anywhere, and says nothing
  of such a key.
\<close>

lemma match_is_on_whole_key:
  "\<not> strings_Contains (path_Base (Key (msg ''s3fptest'' foreign_key ''rh7''))) call_id
   \<and> client_message (env_ok []) client0 call_id req_key (msg ''s3fptest'' foreign_key ''rh7'')
        \<lparr>Filename = [], Metadata = Map.empty\<rparr> []
      = (Return (None, \<lparr>Filename = ''/tmp/s3rpc/1_f'', Metadata = [''foo'' \<mapsto> ''bar'']\<rparr>),
         [EvDeleteMessage ''out'' ''rh7'',
          EvCreateTemp ''/tmp/s3rpc'' ''*_other_go.mod'',
          EvGetObject ''s3fptest'' ''to_client/6ba7b810-9dad-41d1-80b4-00c04fd430c8/other_go.mod'',
          EvCopy ''/tmp/s3rpc/1_f'',
          EvDeleteObject ''s3fptest'' ''to_client/6ba7b810-9dad-41d1-80b4-00c04fd430c8/other_go.mod'',
          EvDeleteObject ''s3fptest'' ''to_server/dosomething/6ba7b810-9dad-41d1-80b4-00c04fd430c8_go.mod''])"
proof -
  have b: "path_Base ''to_client/6ba7b810-9dad-41d1-80b4-00c04fd430c8/other_go.mod'' = ''other_go.mod''"
    by (simp add: path_Base_def)
  have n: "\<not> strings_Contains ''other_go.mod'' ''6ba7b810-9dad-41d1-80b4-00c04fd430c8''"
    by simp
  have c: "strings_Contains ''to_client/6ba7b810-9dad-41d1-80b4-00c04fd430c8/other_go.mod''
             ''6ba7b810-9dad-41d1-80b4-00c04fd430c8''"
    by simp
  show ?thesis
    by (simp add: msg_def foreign_key_def call_id_def req_key_def b n c
        client_message_def client_download_def deleteMessage_def getObject_def deleteObject_def
        client0_def env_ok_def Let_def)
qed



subsection \<open>File names with a separator\<close>

text \<open>
  Against claim C8 as stated: a call for \<^verbatim>\<open>/src/go.mod\<close> (the test calls with an
  absolute path too) is not rejected; the file is uploaded and the call succeeds.
\<close>

theorem C8_separator_in_filename_accepted:
  "CHR ''/'' \<in> set ''/src/go.mod''
   \<and> ExecuteFilename (Suc 0) (env_ok [raw_msg ''s3fptest'' resp_key ''rh2'']) client0
        ''dosomething'' ''/src/go.mod'' []
      = Some (Inr \<lparr>Filename = ''/tmp/s3rpc/1_f'', Metadata = [''foo'' \<mapsto> ''bar'']\<rparr>,
          [EvNewUUID, EvOpen ''/src/go.mod'',
           EvUpload ''s3fptest'' ''to_server/dosomething/6ba7b810-9dad-41d1-80b4-00c04fd430c8_go.mod''
             ''/src/go.mod'' Map.empty,
           EvSelect, EvReceiveMessage ''out'' 5 7 20,
           EvDeleteMessage ''out'' ''rh2'',
           EvCreateTemp ''/tmp/s3rpc'' ''*_6ba7b810-9dad-41d1-80b4-00c04fd430c8_go.mod'',
           EvGetObject ''s3fptest'' ''to_client/dosomething/6ba7b810-9dad-41d1-80b4-00c04fd430c8_go.mod'',
           EvCopy ''/tmp/s3rpc/1_f'',
           EvDeleteObject ''s3fptest'' ''to_client/dosomething/6ba7b810-9dad-41d1-80b4-00c04fd430c8_go.mod'',
           EvDeleteObject ''s3fptest'' ''to_server/dosomething/6ba7b810-9dad-41d1-80b4-00c04fd430c8_go.mod''])"
  using called by (simp add: called_trace_def)

text \<open>
  Claim C8, as amended. No file name is rejected. Whatever the name, the call opens
  that file and, when the open succeeded, uploads it under
  \<^verbatim>\<open>to_server/{op}/{id}_{base}\<close>, where \<^verbatim>\<open>base\<close> is \<^verbatim>\<open>filepath.Base\<close> of the name:
  what follows the last separator, so free of separators unless the name is made of
  separators only. The call returns the error of the open or of the upload when there
  is one; otherwise it returns what its polling loop ends with, and the loop never
  sees the name. In particular the call succeeds when its first round receives a
  matching message first and the deletion, the scratch file and the download succeed.
\<close>

theorem C8_filename_reduced_to_base:
  assumes "id' = uuid_New env (t @ [EvNewUUID])"
      and "key = toServer @ ''/'' @ op @ ''/'' @ id' @ ''_'' @ filepath_Base filename"
      and "tO = t @ [EvNewUUID, EvOpen filename]"
      and "tU = tO @ [EvUpload (bucket c) key filename Map.empty]"
  shows "ExecuteFilename n env c op filename t =
           (case os_Open env tO of
              Some err \<Rightarrow> Some (Inl (ErrApply err), tO)
            | None \<Rightarrow>
                (case s3_Upload env tU of
                   Some err \<Rightarrow> Some (Inl (ErrApply (ErrUpload err)), tU)
                 | None \<Rightarrow>
                     call_result (client_loop n env c id' key
                                    \<lparr>Filename = [], Metadata = Map.empty\<rparr> tU)))
       \<and> (os_Open env tO = None \<and> s3_Upload env tU = None
            \<and> \<not> ctx_Done env (tU @ [EvSelect])
            \<and> Receive env c (tU @ [EvSelect]) = (Inr (m # post), tR)
            \<and> message.Bucket m = bucket c \<and> strings_Contains (Key m) id'
            \<and> tD = tR @ [EvDeleteMessage (queue c) (ReceiptHandle m)]
            \<and> sqs_DeleteMessage env tD = None
            \<and> tC = tD @ [EvCreateTemp (tempDir c) (''*_'' @ path_Base (Key m))]
            \<and> os_CreateTemp env tC = Inr fname
            \<and> s3_GetObject env (tC @ [EvGetObject (bucket c) (Key m)]) = Inr md
            \<and> tG = tC @ [EvGetObject (bucket c) (Key m), EvCopy fname]
            \<and> io_Copy env tG = None
          \<longrightarrow> ExecuteFilename (Suc n) env c op filename t
                = Some (Inr \<lparr>Filename = fname, Metadata = md\<rparr>,
                        tG @ [EvDeleteObject (bucket c) (Key m), EvDeleteObject (bucket c) key]))
       \<and> (filepath_Base filename \<noteq> ''/'' \<longrightarrow> CHR ''/'' \<notin> set (filepath_Base filename))
       \<and> (\<forall>dir b. filename = dir @ CHR ''/'' # b \<and> b \<noteq> [] \<and> CHR ''/'' \<notin> set b
             \<longrightarrow> filepath_Base filename = b)"
proof -
  have k: "key = requestKey op id' filename"
    using assms(2) by (simp add: requestKey_def)
  have 1: "ExecuteFilename n env c op filename t =
           (case os_Open env tO of
              Some err \<Rightarrow> Some (Inl (ErrApply err), tO)
            | None \<Rightarrow>
                (case s3_Upload env tU of
                   Some err \<Rightarrow> Some (Inl (ErrApply (ErrUpload err)), tU)
                 | None \<Rightarrow>
                     call_result (client_loop n env c id' key
                                    \<lparr>Filename = [], Metadata = Map.empty\<rparr> tU)))" for n
  proof (cases "os_Open env tO")
    case (Some err)
    then show ?thesis using assms(1,3) k
      by (simp add: ExecuteFilename_def upload_def Let_def)
  next
    case None
    show ?thesis
    proof (cases "s3_Upload env tU")
      case (Some err)
      then show ?thesis using None assms(1,3,4) k
        by (simp add: ExecuteFilename_def upload_def Let_def)
    next
      case up: None
      have "upload env c filename (requestKey op (uuid_New env (t @ [EvNewUUID])) filename) Map.empty
              (t @ [EvNewUUID]) = (None, tU)"
        using None up assms(1,3,4) k by (simp add: upload_def Let_def)
      from ExecuteFilename_polls [OF this] show ?thesis
        using None up assms(1) k by simp
    qed
  qed
  have ok: "ExecuteFilename (Suc n) env c op filename t
                = Some (Inr \<lparr>Filename = fname, Metadata = md\<rparr>,
                        tG @ [EvDeleteObject (bucket c) (Key m), EvDeleteObject (bucket c) key])"
    if o: "os_Open env tO = None" "s3_Upload env tU = None"
      and r: "\<not> ctx_Done env (tU @ [EvSelect])"
             "Receive env c (tU @ [EvSelect]) = (Inr (m # post), tR)"
      and a: "message.Bucket m = bucket c" "strings_Contains (Key m) id'"
             "tD = tR @ [EvDeleteMessage (queue c) (ReceiptHandle m)]"
             "sqs_DeleteMessage env tD = None"
             "tC = tD @ [EvCreateTemp (tempDir c) (''*_'' @ path_Base (Key m))]"
             "os_CreateTemp env tC = Inr fname"
             "s3_GetObject env (tC @ [EvGetObject (bucket c) (Key m)]) = Inr md"
             "tG = tC @ [EvGetObject (bucket c) (Key m), EvCopy fname]"
             "io_Copy env tG = None"
  proof -
    have "client_message env c id' key m \<lparr>Filename = [], Metadata = Map.empty\<rparr> tR
           = (Return (None, \<lparr>Filename = [], Metadata = Map.empty\<rparr>\<lparr>Filename := fname, Metadata := md\<rparr>),
              tG @ [EvDeleteObject (bucket c) (Key m), EvDeleteObject (bucket c) key])"
      by (rule client_answered [OF a])
    then have "client_loop (Suc n) env c id' key \<lparr>Filename = [], Metadata = Map.empty\<rparr> tU
           = Some ((None, \<lparr>Filename = fname, Metadata = md\<rparr>),
              tG @ [EvDeleteObject (bucket c) (Key m), EvDeleteObject (bucket c) key])"
      using r by simp
    then show ?thesis using 1 [of "Suc n"] o by (simp add: call_result_def)
  qed
  have 2: "filepath_Base filename \<noteq> ''/'' \<longrightarrow> CHR ''/'' \<notin> set (filepath_Base filename)"
    using path_Base_slash_free [of filename] by (simp add: filepath_Base_def)
  have 3: "\<forall>dir b. filename = dir @ CHR ''/'' # b \<and> b \<noteq> [] \<and> CHR ''/'' \<notin> set b
             \<longrightarrow> filepath_Base filename = b"
    using path_Base_last by (simp add: filepath_Base_def)
  show ?thesis using 1 ok 2 3 by blast
qed

theorem C8_filename_reduced_to_base_witness:
  "call_id = uuid_New (env_ok [raw_msg ''s3fptest'' resp_key ''rh2'']) ([] @ [EvNewUUID])
   \<and> req_key = toServer @ ''/'' @ ''dosomething'' @ ''/'' @ call_id @ ''_'' @ filepath_Base ''/src/go.mod''
   \<and> CHR ''/'' \<in> set ''/src/go.mod''
   \<and> filepath_Base ''/src/go.mod'' = ''go.mod''
   \<and> ExecuteFilename (Suc 0) (env_ok [raw_msg ''s3fptest'' resp_key ''rh2'']) client0
        ''dosomething'' ''/src/go.mod'' []
      = call_result
          (client_loop (Suc 0) (env_ok [raw_msg ''s3fptest'' resp_key ''rh2'']) client0 call_id req_key
             \<lparr>Filename = [], Metadata = Map.empty\<rparr>
             [EvNewUUID, EvOpen ''/src/go.mod'',
              EvUpload ''s3fptest'' req_key ''/src/go.mod'' Map.empty])
   \<and> ExecuteFilename (Suc 0) (env_ok [raw_msg ''s3fptest'' resp_key ''rh2'']) client0
        ''dosomething'' ''/src/go.mod'' []
      = Some (Inr \<lparr>Filename = ''/tmp/s3rpc/1_f'', Metadata = [''foo'' \<mapsto> ''bar'']\<rparr>, called_trace)"
proof -
  let ?env = "env_ok [raw_msg ''s3fptest'' resp_key ''rh2'']"
  let ?tO = "[EvNewUUID, EvOpen ''/src/go.mod'']"
  let ?tU = "[EvNewUUID, EvOpen ''/src/go.mod'', EvUpload ''s3fptest'' req_key ''/src/go.mod'' Map.empty]"
  have h1: "call_id = uuid_New ?env ([] @ [EvNewUUID])"
    by (simp add: env_ok_def call_id_def)
  have h2: "req_key = toServer @ ''/'' @ ''dosomething'' @ ''/'' @ call_id @ ''_'' @ filepath_Base ''/src/go.mod''"
    by (simp add: req_key_def call_id_def toServer_def filepath_Base_def path_Base_def)
  have h3: "?tO = [] @ [EvNewUUID, EvOpen ''/src/go.mod'']"
    by simp
  have h4: "?tU = ?tO @ [EvUpload (bucket client0) req_key ''/src/go.mod'' Map.empty]"
    by (simp add: client0_def)
  have o: "os_Open ?env ?tO = None" "s3_Upload ?env ?tU = None"
    by (simp_all add: env_ok_def)
  have s: "CHR ''/'' \<in> set ''/src/go.mod''"
    by simp
  have b: "filepath_Base ''/src/go.mod'' = ''go.mod''"
    by (simp add: filepath_Base_def path_Base_def)
  show ?thesis
    using C8_filename_reduced_to_base [OF h1 h2 h3 h4, of "Suc 0", THEN conjunct1] h1 h2 o s b called
    by simp
qed

end
